theory Spec2Isabelle
  imports Main
begin

section \<open>Values, errors and the local file system\<close>

text \<open>
  The server (\<^verbatim>\<open>src/server.js\<close>) keeps no state of its own: everything it changes lives in
  the local file system, in the storage bucket and on the HTTP response. The model makes
  these explicit. A path is a string and a file's content is a buffer of bytes.
\<close>

type_synonym path = string
type_synonym buffer = string

text \<open>
  The local file system holds regular files and directories. Several spellings of a path
  can name the same object (the working directory, \<^verbatim>\<open>.\<close>, \<^verbatim>\<open>..\<close>, repeated separators,
  links): \<open>locate\<close> gives the location a spelling names, and \<open>nodes\<close> what exists at
  each location. The operating system refuses to remove what is at the locations in
  \<open>denied\<close> (permissions, a sticky directory).
\<close>

datatype node = File buffer | Dir

record filesystem =
  nodes :: "path \<rightharpoonup> node"
  locate :: "path \<Rightarrow> path"
  denied :: "path set"

text \<open>A thrown JavaScript error; \<open>message\<close> is its \<^verbatim>\<open>err.message\<close>.\<close>

datatype js_error = TypeError string | SystemError string | StorageError string

fun message :: "js_error \<Rightarrow> string" where
  "message (TypeError m) = m"
| "message (SystemError m) = m"
| "message (StorageError m) = m"

text \<open>Node puts the path of a failed system call between single quotes.\<close>

definition quoted :: "string \<Rightarrow> string" where
  "quoted s = CHR 0x27 # s @ [CHR 0x27]"

text \<open>
  \<^verbatim>\<open>fs.existsSync\<close> is true for whatever exists at the path, a file or a directory, and
  false for the empty path. \<^verbatim>\<open>fs.unlinkSync\<close> removes a regular file; it throws
  \<^verbatim>\<open>ENOENT\<close> on a path that does not exist, \<^verbatim>\<open>EISDIR\<close> on a directory and \<^verbatim>\<open>EPERM\<close>
  where the removal is refused. \<^verbatim>\<open>fs.readFileSync\<close> returns the bytes of a regular file
  and throws \<^verbatim>\<open>ENOENT\<close> or \<^verbatim>\<open>EISDIR\<close> otherwise.
\<close>

definition existsSync :: "filesystem \<Rightarrow> path \<Rightarrow> bool" where
  "existsSync fs p = (p \<noteq> [] \<and> nodes fs (locate fs p) \<noteq> None)"

definition unlinkSync :: "filesystem \<Rightarrow> path \<Rightarrow> js_error + filesystem" where
  "unlinkSync fs p =
     (if p = [] then
        Inl (SystemError (''ENOENT: no such file or directory, unlink '' @ quoted p))
      else
        (case nodes fs (locate fs p) of
           None \<Rightarrow>
             Inl (SystemError (''ENOENT: no such file or directory, unlink '' @ quoted p))
         | Some Dir \<Rightarrow>
             Inl (SystemError (''EISDIR: illegal operation on a directory, unlink '' @ quoted p))
         | Some (File b) \<Rightarrow>
             if locate fs p \<in> denied fs then
               Inl (SystemError (''EPERM: operation not permitted, unlink '' @ quoted p))
             else Inr (fs\<lparr>nodes := (nodes fs)(locate fs p := None)\<rparr>)))"

definition readFileSync :: "filesystem \<Rightarrow> path \<Rightarrow> js_error + buffer" where
  "readFileSync fs p =
     (if p = [] then
        Inl (SystemError (''ENOENT: no such file or directory, open '' @ quoted p))
      else
        (case nodes fs (locate fs p) of
           None \<Rightarrow>
             Inl (SystemError (''ENOENT: no such file or directory, open '' @ quoted p))
         | Some Dir \<Rightarrow>
             Inl (SystemError ''EISDIR: illegal operation on a directory, read'')
         | Some (File b) \<Rightarrow> Inr b))"

text \<open>
  \<^verbatim>\<open>cleanupFiles\<close> (lines 23-27): \<^verbatim>\<open>files.forEach\<close> visits the paths in order; a path is
  unlinked when it is truthy (not the empty string) and exists. An error thrown by
  \<^verbatim>\<open>unlinkSync\<close> leaves the loop: the paths before it have been removed and the rest are
  not visited, so the error comes with the file system as it stands then.
\<close>

fun cleanupFiles :: "path list \<Rightarrow> filesystem \<Rightarrow> (js_error \<times> filesystem) + filesystem" where
  "cleanupFiles [] fs = Inr fs"
| "cleanupFiles (file # rest) fs =
     (if file \<noteq> [] \<and> existsSync fs file then
        (case unlinkSync fs file of
           Inl err \<Rightarrow> Inl (err, fs)
         | Inr fs' \<Rightarrow> cleanupFiles rest fs')
      else cleanupFiles rest fs)"

text \<open>A path that \<^verbatim>\<open>unlinkSync\<close> can remove: a regular file whose removal is not refused.\<close>

definition unlinkable :: "filesystem \<Rightarrow> path \<Rightarrow> bool" where
  "unlinkable fs p =
     (case nodes fs (locate fs p) of
        Some (File b) \<Rightarrow> locate fs p \<notin> denied fs
      | _ \<Rightarrow> False)"

text \<open>
  The scratch directory of a Job holds the regular files that the upload middleware and
  the engine wrote, each under the one name they gave it, and all of them the server's
  own. As a file system it has no directory, no second spelling and no refusal.
\<close>

type_synonym scratch_dir = "path \<rightharpoonup> buffer"

definition scratch_fs :: "scratch_dir \<Rightarrow> filesystem" where
  "scratch_fs m = \<lparr>nodes = (\<lambda>p. map_option File (m p)), locate = (\<lambda>p. p), denied = {}\<rparr>"

definition regular_files :: "filesystem \<Rightarrow> scratch_dir" where
  "regular_files fs = (\<lambda>p. case nodes fs p of Some (File b) \<Rightarrow> Some b | _ \<Rightarrow> None)"

text \<open>
  \<^verbatim>\<open>path.basename\<close> on a POSIX path: trailing separators are ignored, and the result is
  what follows the last remaining separator.
\<close>

definition basename :: "path \<Rightarrow> string" where
  "basename p =
     rev (takeWhile (\<lambda>c. c \<noteq> CHR ''/'') (dropWhile (\<lambda>c. c = CHR ''/'') (rev p)))"

text \<open>
  A template literal renders a number in decimal. \<^verbatim>\<open>Date.now()\<close> is a natural number of
  milliseconds.
\<close>

definition digit_char :: "nat \<Rightarrow> char" where
  "digit_char d = ''0123456789'' ! (d mod 10)"

fun string_of_nat :: "nat \<Rightarrow> string" where
  "string_of_nat n =
     (if n < 10 then [digit_char n] else string_of_nat (n div 10) @ [digit_char (n mod 10)])"

declare string_of_nat.simps [simp del]

text \<open>Reading a decimal numeral back: the value of a string of digits.\<close>

definition digit_value :: "char \<Rightarrow> nat" where
  "digit_value c = of_char c - 48"

definition decimal_value :: "string \<Rightarrow> nat" where
  "decimal_value s = foldl (\<lambda>acc c. 10 * acc + digit_value c) 0 s"

text \<open>
  A request parameter is either a number (only the defaults in the source are) or the
  string the multipart body carried.
\<close>

datatype jsval = JNum nat | JStr string

fun to_str :: "jsval \<Rightarrow> string" where
  "to_str (JNum n) = string_of_nat n"
| "to_str (JStr s) = s"

section \<open>The transcoding command\<close>

text \<open>
  A \<^verbatim>\<open>fluent-ffmpeg\<close> command is a builder: every call records one more instruction. The
  record keeps what the source's calls pass, in call order.
\<close>

record ffmpeg_cmd =
  cmd_inputs :: "path list"
  cmd_startTime :: "jsval option"
  cmd_duration :: "jsval option"
  cmd_videoFilters :: "string list"
  cmd_outputOptions :: "string list"

definition ffmpeg_empty :: ffmpeg_cmd where
  "ffmpeg_empty =
     \<lparr>cmd_inputs = [], cmd_startTime = None, cmd_duration = None,
      cmd_videoFilters = [], cmd_outputOptions = []\<rparr>"

definition addInput :: "path \<Rightarrow> ffmpeg_cmd \<Rightarrow> ffmpeg_cmd" where
  "addInput p c = c\<lparr>cmd_inputs := cmd_inputs c @ [p]\<rparr>"

definition ffmpeg :: "path \<Rightarrow> ffmpeg_cmd" where
  "ffmpeg p = addInput p ffmpeg_empty"

definition setStartTime :: "jsval \<Rightarrow> ffmpeg_cmd \<Rightarrow> ffmpeg_cmd" where
  "setStartTime v c = c\<lparr>cmd_startTime := Some v\<rparr>"

definition setDuration :: "jsval \<Rightarrow> ffmpeg_cmd \<Rightarrow> ffmpeg_cmd" where
  "setDuration v c = c\<lparr>cmd_duration := Some v\<rparr>"

definition videoFilters :: "string \<Rightarrow> ffmpeg_cmd \<Rightarrow> ffmpeg_cmd" where
  "videoFilters f c = c\<lparr>cmd_videoFilters := cmd_videoFilters c @ [f]\<rparr>"

definition outputOptions :: "string list \<Rightarrow> ffmpeg_cmd \<Rightarrow> ffmpeg_cmd" where
  "outputOptions os c = c\<lparr>cmd_outputOptions := cmd_outputOptions c @ os\<rparr>"

section \<open>The world: files, bucket and what was done\<close>

text \<open>
  The JSON bodies the handlers send: \<^verbatim>\<open>{success: true, downloadUrl}\<close>, \<^verbatim>\<open>{error, details}\<close>
  and, for a rejected request, \<^verbatim>\<open>{error}\<close>.
\<close>

datatype payload = Success string | Failure string string | Rejected string

datatype run_mode = Save | MergeToFile path

text \<open>
  The trace lists the outward actions in the order the code performs them: starting the
  engine, the storage upload call, the response, the call of \<^verbatim>\<open>cleanupFiles\<close> and
  \<^verbatim>\<open>console.error\<close>.
\<close>

datatype event =
    Run run_mode ffmpeg_cmd path
  | Upload string buffer
  | Respond nat payload
  | Cleanup "path list"
  | ConsoleError string

record world =
  files :: scratch_dir
  bucket :: "string \<rightharpoonup> buffer"
  trace :: "event list"

text \<open>
  What the collaborators do is not in the source; it is an input of the model. The engine
  ends with exactly one of its two signals, having left \<open>ffmpeg_output\<close> at the output
  path (\<open>None\<close>: it wrote nothing). The storage service answers the upload with an error
  or without one, and resolves a public URL for a name. \<^verbatim>\<open>path.resolve\<close> depends on the
  process's working directory.
\<close>

datatype signal = End | Error string

record env =
  ffmpeg_signal :: signal
  ffmpeg_output :: "buffer option"
  upload_error :: "string option"
  getPublicUrl :: "string \<Rightarrow> string"
  path_resolve :: "path \<Rightarrow> path"

definition respond :: "nat \<Rightarrow> payload \<Rightarrow> world \<Rightarrow> world" where
  "respond st pl w = w\<lparr>trace := trace w @ [Respond st pl]\<rparr>"

definition console_error :: "string \<Rightarrow> world \<Rightarrow> world" where
  "console_error m w = w\<lparr>trace := trace w @ [ConsoleError m]\<rparr>"

definition cleanup :: "path list \<Rightarrow> world \<Rightarrow> js_error + world" where
  "cleanup ps w =
     (case cleanupFiles ps (scratch_fs (files w)) of
        Inl (err, fs1) \<Rightarrow> Inl err
      | Inr fs' \<Rightarrow> Inr (w\<lparr>files := regular_files fs', trace := trace w @ [Cleanup ps]\<rparr>))"

definition engine_files :: "env \<Rightarrow> path \<Rightarrow> scratch_dir \<Rightarrow> scratch_dir" where
  "engine_files e outputPath fs =
     (case ffmpeg_output e of None \<Rightarrow> fs | Some b \<Rightarrow> fs(outputPath \<mapsto> b))"

definition run_ffmpeg :: "env \<Rightarrow> run_mode \<Rightarrow> ffmpeg_cmd \<Rightarrow> path \<Rightarrow> world \<Rightarrow> world" where
  "run_ffmpeg e mode cmd outputPath w =
     w\<lparr>files := engine_files e outputPath (files w),
       trace := trace w @ [Run mode cmd outputPath]\<rparr>"

text \<open>
  \<^verbatim>\<open>uploadToSupabase\<close> (lines 30-39): read the file, upload it with \<^verbatim>\<open>upsert: true\<close>,
  throw the service's error if there is one, otherwise return \<^verbatim>\<open>data.publicUrl\<close>.
\<close>

definition uploadToSupabase ::
    "env \<Rightarrow> path \<Rightarrow> string \<Rightarrow> world \<Rightarrow> (js_error + string) \<times> world" where
  "uploadToSupabase e localFilePath fileName w =
     (case readFileSync (scratch_fs (files w)) localFilePath of
        Inl err \<Rightarrow> (Inl err, w)
      | Inr fileBuffer \<Rightarrow>
          (let w1 = w\<lparr>trace := trace w @ [Upload fileName fileBuffer]\<rparr> in
           case upload_error e of
             Some m \<Rightarrow> (Inl (StorageError m), w1)
           | None \<Rightarrow>
               (Inr (getPublicUrl e fileName),
                w1\<lparr>bucket := (bucket w1)(fileName \<mapsto> fileBuffer)\<rparr>)))"

text \<open>
  \<^verbatim>\<open>processAndUpload\<close> (lines 42-64). The \<^verbatim>\<open>end\<close> callback is a \<^verbatim>\<open>try\<close>/\<^verbatim>\<open>catch\<close> that
  uploads and responds, followed by the \<^verbatim>\<open>finally\<close> block that cleans up; the \<^verbatim>\<open>error\<close>
  callback logs, cleans up and then responds.
\<close>

definition onEnd_try :: "env \<Rightarrow> path \<Rightarrow> world \<Rightarrow> world" where
  "onEnd_try e outputPath w =
     (case uploadToSupabase e outputPath (basename outputPath) w of
        (Inr publicUrl, w1) \<Rightarrow> respond 200 (Success publicUrl) w1
      | (Inl err, w1) \<Rightarrow>
          respond 500 (Failure ''Processing succeeded, but cloud upload failed.'' (message err))
            (console_error (''Supabase Error: '' @ message err) w1))"

definition onEnd :: "env \<Rightarrow> path \<Rightarrow> path list \<Rightarrow> world \<Rightarrow> js_error + world" where
  "onEnd e outputPath inputFiles w =
     cleanup (inputFiles @ [outputPath]) (onEnd_try e outputPath w)"

definition onError :: "string \<Rightarrow> path \<Rightarrow> path list \<Rightarrow> world \<Rightarrow> js_error + world" where
  "onError m outputPath inputFiles w =
     (case cleanup (inputFiles @ [outputPath]) (console_error (''FFmpeg Error: '' @ m) w) of
        Inl err \<Rightarrow> Inl err
      | Inr w1 \<Rightarrow> Inr (respond 500 (Failure ''Video processing failed.'' m) w1))"

definition processAndUpload ::
    "env \<Rightarrow> ffmpeg_cmd \<Rightarrow> path \<Rightarrow> path list \<Rightarrow> world \<Rightarrow> js_error + world" where
  "processAndUpload e ffmpegCommand outputPath inputFiles w =
     (let cmd = outputOptions [''-threads 1'', ''-preset ultrafast''] ffmpegCommand;
          w1 = run_ffmpeg e Save cmd outputPath w
      in case ffmpeg_signal e of
           End \<Rightarrow> onEnd e outputPath inputFiles w1
         | Error m \<Rightarrow> onError m outputPath inputFiles w1)"

section \<open>The routes\<close>

text \<open>
  What the upload middleware leaves on the request. \<^verbatim>\<open>req.file\<close> is a file object or
  undefined; \<^verbatim>\<open>req.files\<close> is undefined, an object from field names to arrays of file
  objects, or an array of file objects; \<^verbatim>\<open>req.body\<close> holds the text fields. A file
  object is modelled by its \<^verbatim>\<open>path\<close>, the only property the handlers read.
\<close>

datatype req_files =
    FilesUndefined
  | FilesObject "string \<rightharpoonup> path list"
  | FilesArray "path list"

record request =
  req_file :: "path option"
  req_files :: req_files
  req_body :: "string \<rightharpoonup> string"

text \<open>
  \<^verbatim>\<open>req.files.video\<close>: reading a property of undefined throws a TypeError; an array has
  no property of that name.
\<close>

definition files_field :: "req_files \<Rightarrow> string \<Rightarrow> js_error + path list option" where
  "files_field fsv name =
     (case fsv of
        FilesUndefined \<Rightarrow>
          Inl (TypeError (''Cannot read properties of undefined (reading '' @ quoted name @ '')''))
      | FilesObject m \<Rightarrow> Inr (m name)
      | FilesArray xs \<Rightarrow> Inr None)"

text \<open>\<^verbatim>\<open>arr[0].path\<close>: the first file's path; on an empty array \<^verbatim>\<open>arr[0]\<close> is undefined.\<close>

definition first_path :: "path list \<Rightarrow> js_error + path" where
  "first_path xs =
     (case xs of
        [] \<Rightarrow>
          Inl (TypeError (''Cannot read properties of undefined (reading '' @ quoted ''path'' @ '')''))
      | p # rest \<Rightarrow> Inr p)"

text \<open>A destructuring default applies when the property is undefined, and only then.\<close>

definition field_or :: "(string \<rightharpoonup> string) \<Rightarrow> string \<Rightarrow> nat \<Rightarrow> jsval" where
  "field_or body name dflt = (case body name of None \<Rightarrow> JNum dflt | Some s \<Rightarrow> JStr s)"

text \<open>\<^verbatim>\<open>POST /trim\<close> (lines 71-82).\<close>

definition trim :: "env \<Rightarrow> nat \<Rightarrow> request \<Rightarrow> world \<Rightarrow> js_error + world" where
  "trim e now req w =
     (case req_file req of
        None \<Rightarrow> Inr (respond 400 (Rejected ''Video file required.'') w)
      | Some fpath \<Rightarrow>
          (let startTime = field_or (req_body req) ''startTime'' 0;
               duration = field_or (req_body req) ''duration'' 5;
               outputPath = ''/tmp/trimmed_'' @ string_of_nat now @ ''.mp4'';
               cmd = outputOptions [''-c copy'']
                       (setDuration duration (setStartTime startTime (ffmpeg fpath)))
           in processAndUpload e cmd outputPath [fpath] w))"

text \<open>\<^verbatim>\<open>POST /crop\<close> (lines 85-92).\<close>

definition crop :: "env \<Rightarrow> nat \<Rightarrow> request \<Rightarrow> world \<Rightarrow> js_error + world" where
  "crop e now req w =
     (case req_file req of
        None \<Rightarrow> Inr (respond 400 (Rejected ''Video file required.'') w)
      | Some fpath \<Rightarrow>
          (let cw = field_or (req_body req) ''w'' 1080;
               ch = field_or (req_body req) ''h'' 1920;
               cx = field_or (req_body req) ''x'' 0;
               cy = field_or (req_body req) ''y'' 0;
               outputPath = ''/tmp/cropped_'' @ string_of_nat now @ ''.mp4'';
               cmd = videoFilters
                       (''crop='' @ to_str cw @ '':'' @ to_str ch @ '':'' @ to_str cx @ '':''
                          @ to_str cy)
                       (ffmpeg fpath)
           in processAndUpload e cmd outputPath [fpath] w))"

text \<open>\<^verbatim>\<open>POST /add-voice\<close> (lines 95-104).\<close>

definition addVoice :: "env \<Rightarrow> nat \<Rightarrow> request \<Rightarrow> world \<Rightarrow> js_error + world" where
  "addVoice e now req w =
     (case files_field (req_files req) ''video'' of
        Inl err \<Rightarrow> Inl err
      | Inr None \<Rightarrow> Inr (respond 400 (Rejected ''Video and Audio files required.'') w)
      | Inr (Some video) \<Rightarrow>
          (case files_field (req_files req) ''audio'' of
             Inl err \<Rightarrow> Inl err
           | Inr None \<Rightarrow> Inr (respond 400 (Rejected ''Video and Audio files required.'') w)
           | Inr (Some audio) \<Rightarrow>
               (let outputPath = ''/tmp/voiced_'' @ string_of_nat now @ ''.mp4'' in
                case first_path video of
                  Inl err \<Rightarrow> Inl err
                | Inr vpath \<Rightarrow>
                    (case first_path audio of
                       Inl err \<Rightarrow> Inl err
                     | Inr apath \<Rightarrow>
                         (let cmd = outputOptions
                                      [''-c:v copy'', ''-map 0:v:0'', ''-map 1:a:0'', ''-shortest'']
                                      (addInput apath (ffmpeg vpath))
                          in processAndUpload e cmd outputPath [vpath, apath] w)))))"

text \<open>\<^verbatim>\<open>POST /add-caption\<close> (lines 107-114).\<close>

definition addCaption :: "env \<Rightarrow> nat \<Rightarrow> request \<Rightarrow> world \<Rightarrow> js_error + world" where
  "addCaption e now req w =
     (case files_field (req_files req) ''video'' of
        Inl err \<Rightarrow> Inl err
      | Inr None \<Rightarrow>
          Inr (respond 400 (Rejected ''Video and .srt Subtitle files required.'') w)
      | Inr (Some video) \<Rightarrow>
          (case files_field (req_files req) ''subtitle'' of
             Inl err \<Rightarrow> Inl err
           | Inr None \<Rightarrow>
               Inr (respond 400 (Rejected ''Video and .srt Subtitle files required.'') w)
           | Inr (Some subtitle) \<Rightarrow>
               (let outputPath = ''/tmp/captioned_'' @ string_of_nat now @ ''.mp4'' in
                case first_path subtitle of
                  Inl err \<Rightarrow> Inl err
                | Inr spath \<Rightarrow>
                    (let subPath = path_resolve e spath in
                     case first_path video of
                       Inl err \<Rightarrow> Inl err
                     | Inr vpath \<Rightarrow>
                         (let cmd = videoFilters (''subtitles='' @ subPath) (ffmpeg vpath)
                          in processAndUpload e cmd outputPath [vpath, subPath] w)))))"

text \<open>
  \<^verbatim>\<open>POST /merge\<close> (lines 117-141) does not go through \<^verbatim>\<open>processAndUpload\<close>: it sets the
  two options and registers its own callbacks, with its own messages and no logging.
\<close>

definition merge_onEnd_try :: "env \<Rightarrow> path \<Rightarrow> world \<Rightarrow> world" where
  "merge_onEnd_try e outputPath w =
     (case uploadToSupabase e outputPath (basename outputPath) w of
        (Inr url, w1) \<Rightarrow> respond 200 (Success url) w1
      | (Inl err, w1) \<Rightarrow> respond 500 (Failure ''Cloud upload failed.'' (message err)) w1)"

definition merge_onEnd :: "env \<Rightarrow> path \<Rightarrow> path list \<Rightarrow> world \<Rightarrow> js_error + world" where
  "merge_onEnd e outputPath inputPaths w =
     cleanup (inputPaths @ [outputPath]) (merge_onEnd_try e outputPath w)"

definition merge_onError :: "string \<Rightarrow> path \<Rightarrow> path list \<Rightarrow> world \<Rightarrow> js_error + world" where
  "merge_onError m outputPath inputPaths w =
     (case cleanup (inputPaths @ [outputPath]) w of
        Inl err \<Rightarrow> Inl err
      | Inr w1 \<Rightarrow> Inr (respond 500 (Failure ''Merge failed.'' m) w1))"

definition merge :: "env \<Rightarrow> nat \<Rightarrow> request \<Rightarrow> world \<Rightarrow> js_error + world" where
  "merge e now req w =
     (case req_files req of
        FilesUndefined \<Rightarrow> Inr (respond 400 (Rejected ''Exactly 2 videos required.'') w)
      | FilesObject m \<Rightarrow> Inr (respond 400 (Rejected ''Exactly 2 videos required.'') w)
      | FilesArray fs \<Rightarrow>
          if length fs \<noteq> 2 then Inr (respond 400 (Rejected ''Exactly 2 videos required.'') w)
          else
            (let outputPath = ''/tmp/merged_'' @ string_of_nat now @ ''.mp4'';
                 inputPaths = fs;
                 cmd = outputOptions [''-threads 1'', ''-preset ultrafast'']
                         (fold addInput inputPaths ffmpeg_empty);
                 w1 = run_ffmpeg e (MergeToFile ''/tmp/'') cmd outputPath w
             in case ffmpeg_signal e of
                  End \<Rightarrow> merge_onEnd e outputPath inputPaths w1
                | Error m \<Rightarrow> merge_onError m outputPath inputPaths w1))"

text \<open>The five routes, and Express's dispatch on the path.\<close>

datatype route = Trim | Crop | AddVoice | AddCaption | Merge

fun handle :: "route \<Rightarrow> env \<Rightarrow> nat \<Rightarrow> request \<Rightarrow> world \<Rightarrow> js_error + world" where
  "handle Trim = trim"
| "handle Crop = crop"
| "handle AddVoice = addVoice"
| "handle AddCaption = addCaption"
| "handle Merge = merge"

section \<open>The retention sweep\<close>

text \<open>
  The hourly callback (lines 151-159). A listed object carries its name and the
  millisecond value of \<^verbatim>\<open>new Date(f.created_at)\<close>; \<open>now\<close> is \<^verbatim>\<open>Date.now()\<close>. The
  listing is \<open>None\<close> when the service returned no data. The result is the list of
  bulk-delete calls issued.
\<close>

record storage_object =
  obj_name :: string
  created_at :: int

datatype storage_call = Remove "string list"

definition oneDayAgo :: "int \<Rightarrow> int" where
  "oneDayAgo now = now - 24 * 60 * 60 * 1000"

definition filesToDelete :: "int \<Rightarrow> storage_object list \<Rightarrow> string list" where
  "filesToDelete now fs = map obj_name (filter (\<lambda>f. created_at f < oneDayAgo now) fs)"

definition sweep :: "int \<Rightarrow> storage_object list option \<Rightarrow> storage_call list" where
  "sweep now listing =
     (case listing of
        None \<Rightarrow> []
      | Some fs \<Rightarrow>
          if length (filesToDelete now fs) > 0 then [Remove (filesToDelete now fs)] else [])"

text \<open>The sweep as the specification words it: the age of an object against 24 hours.\<close>

definition age :: "int \<Rightarrow> storage_object \<Rightarrow> int" where
  "age now f = now - created_at f"

definition spec_delete_set :: "int \<Rightarrow> storage_object list \<Rightarrow> string list" where
  "spec_delete_set now fs = map obj_name (filter (\<lambda>f. age now f > 24 * 3600 * 1000) fs)"

section \<open>Observations on a trace\<close>

text \<open>What a trace says about each kind of action, in order.\<close>

fun launched :: "event list \<Rightarrow> (run_mode \<times> ffmpeg_cmd \<times> path) list" where
  "launched [] = []"
| "launched (Run m c p # tr) = (m, c, p) # launched tr"
| "launched (ev # tr) = launched tr"

fun uploads :: "event list \<Rightarrow> (string \<times> buffer) list" where
  "uploads [] = []"
| "uploads (Upload n b # tr) = (n, b) # uploads tr"
| "uploads (ev # tr) = uploads tr"

fun responses :: "event list \<Rightarrow> (nat \<times> payload) list" where
  "responses [] = []"
| "responses (Respond st pl # tr) = (st, pl) # responses tr"
| "responses (ev # tr) = responses tr"

fun cleanups :: "event list \<Rightarrow> path list list" where
  "cleanups [] = []"
| "cleanups (Cleanup ps # tr) = ps # cleanups tr"
| "cleanups (ev # tr) = cleanups tr"

text \<open>The trace a handler leaves; a handler that throws leaves none behind in the model.\<close>

definition trace_of :: "js_error + world \<Rightarrow> event list" where
  "trace_of r = (case r of Inl err \<Rightarrow> [] | Inr w \<Rightarrow> trace w)"

definition bucket_of :: "js_error + world \<Rightarrow> (string \<rightharpoonup> buffer)" where
  "bucket_of r = (case r of Inl err \<Rightarrow> Map.empty | Inr w \<Rightarrow> bucket w)"

section \<open>The Job of a request\<close>

text \<open>
  The names the claims use, read off the handlers: the prefix of the output file, the
  artifact name and output path of a Job handled at millisecond \<open>now\<close>, the two
  failure messages of a route, and the input paths of a request that passes the
  route's validation (\<open>None\<close> when it does not).
\<close>

fun prefix_of :: "route \<Rightarrow> string" where
  "prefix_of Trim = ''trimmed''"
| "prefix_of Crop = ''cropped''"
| "prefix_of AddVoice = ''voiced''"
| "prefix_of AddCaption = ''captioned''"
| "prefix_of Merge = ''merged''"

definition artifact_name :: "route \<Rightarrow> nat \<Rightarrow> string" where
  "artifact_name r now = prefix_of r @ ''_'' @ string_of_nat now @ ''.mp4''"

definition outputPath_of :: "route \<Rightarrow> nat \<Rightarrow> path" where
  "outputPath_of r now = ''/tmp/'' @ artifact_name r now"

fun processing_failed :: "route \<Rightarrow> string" where
  "processing_failed Merge = ''Merge failed.''"
| "processing_failed r = ''Video processing failed.''"

fun upload_failed :: "route \<Rightarrow> string" where
  "upload_failed Merge = ''Cloud upload failed.''"
| "upload_failed r = ''Processing succeeded, but cloud upload failed.''"

fun rejection :: "route \<Rightarrow> string" where
  "rejection Trim = ''Video file required.''"
| "rejection Crop = ''Video file required.''"
| "rejection AddVoice = ''Video and Audio files required.''"
| "rejection AddCaption = ''Video and .srt Subtitle files required.''"
| "rejection Merge = ''Exactly 2 videos required.''"

fun run_mode_of :: "route \<Rightarrow> run_mode" where
  "run_mode_of Merge = MergeToFile ''/tmp/''"
| "run_mode_of r = Save"

definition field_path :: "req_files \<Rightarrow> string \<Rightarrow> path option" where
  "field_path fsv name =
     (case fsv of
        FilesObject m \<Rightarrow> (case m name of Some (p # rest) \<Rightarrow> Some p | _ \<Rightarrow> None)
      | _ \<Rightarrow> None)"

fun input_paths :: "route \<Rightarrow> env \<Rightarrow> request \<Rightarrow> path list option" where
  "input_paths Trim e req = map_option (\<lambda>p. [p]) (req_file req)"
| "input_paths Crop e req = map_option (\<lambda>p. [p]) (req_file req)"
| "input_paths AddVoice e req =
     (case (field_path (req_files req) ''video'', field_path (req_files req) ''audio'') of
        (Some v, Some a) \<Rightarrow> Some [v, a]
      | _ \<Rightarrow> None)"
| "input_paths AddCaption e req =
     (case (field_path (req_files req) ''video'', field_path (req_files req) ''subtitle'') of
        (Some v, Some s) \<Rightarrow> Some [v, path_resolve e s]
      | _ \<Rightarrow> None)"
| "input_paths Merge e req =
     (case req_files req of
        FilesArray fs \<Rightarrow> if length fs = 2 then Some fs else None
      | _ \<Rightarrow> None)"

text \<open>
  What a Job does once the engine has been started, whichever route it came from: the
  callback of the signal that fires.
\<close>

definition job_tail :: "route \<Rightarrow> env \<Rightarrow> path \<Rightarrow> path list \<Rightarrow> world \<Rightarrow> js_error + world" where
  "job_tail r e outputPath ins w1 =
     (case ffmpeg_signal e of
        End \<Rightarrow>
          if r = Merge then merge_onEnd e outputPath ins w1 else onEnd e outputPath ins w1
      | Error m \<Rightarrow>
          if r = Merge then merge_onError m outputPath ins w1 else onError m outputPath ins w1)"

text \<open>The two resource options every invocation is to carry.\<close>

definition resource_limited :: "ffmpeg_cmd \<Rightarrow> bool" where
  "resource_limited c =
     (''-threads 1'' \<in> set (cmd_outputOptions c) \<and> ''-preset ultrafast'' \<in> set (cmd_outputOptions c))"

section \<open>Concrete inputs\<close>

text \<open>
  A storage service that accepts every upload and an engine that ends well, leaving the
  given bytes at the output path; one uploaded video; a scratch directory holding it.
\<close>

definition good_env :: "buffer option \<Rightarrow> env" where
  "good_env out =
     \<lparr>ffmpeg_signal = End, ffmpeg_output = out, upload_error = None,
      getPublicUrl = (\<lambda>n. ''https://store.example/videos/'' @ n),
      path_resolve = (\<lambda>p. p)\<rparr>"

definition failing_engine :: "string \<Rightarrow> env" where
  "failing_engine m = (good_env (Some ''partial''))\<lparr>ffmpeg_signal := Error m\<rparr>"

definition failing_storage :: "string \<Rightarrow> env" where
  "failing_storage m = (good_env (Some ''mp4-bytes''))\<lparr>upload_error := Some m\<rparr>"

definition blank_url :: env where
  "blank_url = (good_env (Some ''mp4-bytes''))\<lparr>getPublicUrl := (\<lambda>n. [])\<rparr>"

text \<open>A request the upload middleware passed on untouched: it was not multipart.\<close>

definition bare_request :: request where
  "bare_request = \<lparr>req_file = None, req_files = FilesUndefined, req_body = Map.empty\<rparr>"

definition one_video :: request where
  "one_video = \<lparr>req_file = Some ''/tmp/up1'', req_files = FilesUndefined, req_body = Map.empty\<rparr>"

text \<open>
  An uploaded video with a body whose \<^verbatim>\<open>startTime\<close> and \<^verbatim>\<open>x\<close> fields are present
  but empty, whose \<^verbatim>\<open>w\<close> is out of any sensible range, and whose other fields are
  absent.
\<close>

definition odd_body :: request where
  "odd_body =
     \<lparr>req_file = Some ''/tmp/up1'', req_files = FilesUndefined,
      req_body = [''startTime'' \<mapsto> [], ''w'' \<mapsto> ''-40'', ''x'' \<mapsto> []]\<rparr>"

text \<open>Two videos under one field, as the merge route expects them.\<close>

definition two_videos :: request where
  "two_videos =
     \<lparr>req_file = None, req_files = FilesArray [''/tmp/up1'', ''/tmp/up2''], req_body = Map.empty\<rparr>"

text \<open>
  A file system in which one file has a second spelling and one path is a directory.
\<close>

definition two_spellings :: filesystem where
  "two_spellings =
     \<lparr>nodes = [''/tmp/up1'' \<mapsto> File ''raw'', ''/tmp/keep'' \<mapsto> File ''kept'', ''/tmp/frames'' \<mapsto> Dir],
      locate = (\<lambda>p. if p = ''/tmp//up1'' then ''/tmp/up1'' else p),
      denied = {}\<rparr>"

definition scratch :: world where
  "scratch = \<lparr>files = [''/tmp/up1'' \<mapsto> ''raw''], bucket = Map.empty, trace = []\<rparr>"

text \<open>
  The trim Job of that request at millisecond 1000, at the point where the \<^verbatim>\<open>try\<close> block
  of its \<^verbatim>\<open>end\<close> callback has run and the \<^verbatim>\<open>finally\<close> block has not.
\<close>

definition responded :: world where
  "responded =
     onEnd_try (good_env (Some ''mp4-bytes'')) ''/tmp/trimmed_1000.mp4''
       (run_ffmpeg (good_env (Some ''mp4-bytes'')) Save
          (outputOptions [''-threads 1'', ''-preset ultrafast'']
             (outputOptions [''-c copy'']
                (setDuration (JNum 5) (setStartTime (JNum 0) (ffmpeg ''/tmp/up1'')))))
          ''/tmp/trimmed_1000.mp4'' scratch)"

section \<open>What a Job does\<close>

lemma cleanupFiles_returns:
  assumes "\<forall>p \<in> set ps. existsSync fs p \<longrightarrow> unlinkable fs p"
  shows "cleanupFiles ps fs =
           Inr (fs\<lparr>nodes := (\<lambda>k. if k \<in> locate fs ` (set ps - {[]}) then None else nodes fs k)\<rparr>)"
  using assms
proof (induction ps arbitrary: fs)
  case Nil
  show ?case by simp
next
  case (Cons a ps)
  show ?case
  proof (cases "a \<noteq> [] \<and> existsSync fs a")
    case True
    with Cons.prems have "unlinkable fs a" by simp
    then obtain b where b: "nodes fs (locate fs a) = Some (File b)" "locate fs a \<notin> denied fs"
      by (auto simp: unlinkable_def split: option.splits node.splits)
    let ?fs1 = "fs\<lparr>nodes := (nodes fs)(locate fs a := None)\<rparr>"
    from True b have u: "unlinkSync fs a = Inr ?fs1"
      by (simp add: unlinkSync_def)
    have pre: "\<forall>p \<in> set ps. existsSync ?fs1 p \<longrightarrow> unlinkable ?fs1 p"
    proof (intro ballI impI)
      fix p
      assume p: "p \<in> set ps" and ex: "existsSync ?fs1 p"
      from ex have ne: "locate fs p \<noteq> locate fs a" and "existsSync fs p"
        by (auto simp: existsSync_def split: if_splits)
      with p Cons.prems have "unlinkable fs p" by simp
      with ne show "unlinkable ?fs1 p"
        by (simp add: unlinkable_def split: option.splits node.splits)
    qed
    have "cleanupFiles (a # ps) fs = cleanupFiles ps ?fs1"
      using True u by simp
    also have "\<dots> = Inr (?fs1\<lparr>nodes :=
        (\<lambda>k. if k \<in> locate ?fs1 ` (set ps - {[]}) then None else nodes ?fs1 k)\<rparr>)"
      by (rule Cons.IH [OF pre])
    also have "?fs1\<lparr>nodes :=
        (\<lambda>k. if k \<in> locate ?fs1 ` (set ps - {[]}) then None else nodes ?fs1 k)\<rparr> =
        fs\<lparr>nodes := (\<lambda>k. if k \<in> locate fs ` (set (a # ps) - {[]}) then None else nodes fs k)\<rparr>"
    proof -
      have eq: "(\<lambda>k. if k \<in> locate ?fs1 ` (set ps - {[]}) then None else nodes ?fs1 k) =
            (\<lambda>k. if k \<in> locate fs ` (set (a # ps) - {[]}) then None else nodes fs k)"
        using True by (auto simp: fun_eq_iff)
      show ?thesis unfolding eq by simp
    qed
    finally show ?thesis .
  next
    case False
    from Cons.prems have pre: "\<forall>p \<in> set ps. existsSync fs p \<longrightarrow> unlinkable fs p" by simp
    from False have "cleanupFiles (a # ps) fs = cleanupFiles ps fs" by auto
    also have "\<dots> = Inr (fs\<lparr>nodes :=
        (\<lambda>k. if k \<in> locate fs ` (set ps - {[]}) then None else nodes fs k)\<rparr>)"
      by (rule Cons.IH [OF pre])
    also have "fs\<lparr>nodes := (\<lambda>k. if k \<in> locate fs ` (set ps - {[]}) then None else nodes fs k)\<rparr> =
        fs\<lparr>nodes := (\<lambda>k. if k \<in> locate fs ` (set (a # ps) - {[]}) then None else nodes fs k)\<rparr>"
    proof -
      have "(\<lambda>k. if k \<in> locate fs ` (set ps - {[]}) then None else nodes fs k) =
            (\<lambda>k. if k \<in> locate fs ` (set (a # ps) - {[]}) then None else nodes fs k)"
        using False by (auto simp: fun_eq_iff existsSync_def)
      then show ?thesis by simp
    qed
    finally show ?thesis .
  qed
qed

lemma existsSync_scratch: "existsSync (scratch_fs m) p = (p \<noteq> [] \<and> m p \<noteq> None)"
  by (simp add: existsSync_def scratch_fs_def)

lemma readFileSync_scratch:
  "readFileSync (scratch_fs m) p =
     (case m p of
        None \<Rightarrow> Inl (SystemError (''ENOENT: no such file or directory, open '' @ quoted p))
      | Some b \<Rightarrow>
          if p = [] then Inl (SystemError (''ENOENT: no such file or directory, open '' @ quoted p))
          else Inr b)"
  by (simp add: readFileSync_def scratch_fs_def split: option.splits)

lemma unlinkable_scratch: "existsSync (scratch_fs m) p \<Longrightarrow> unlinkable (scratch_fs m) p"
  by (auto simp: existsSync_def unlinkable_def scratch_fs_def)

lemma cleanupFiles_scratch:
  "cleanupFiles ps (scratch_fs m) =
     Inr (scratch_fs (\<lambda>p. if p \<in> set ps \<and> existsSync (scratch_fs m) p then None else m p))"
proof -
  have "cleanupFiles ps (scratch_fs m) =
          Inr ((scratch_fs m)\<lparr>nodes :=
            (\<lambda>k. if k \<in> locate (scratch_fs m) ` (set ps - {[]}) then None
                  else nodes (scratch_fs m) k)\<rparr>)"
    by (rule cleanupFiles_returns) (simp add: unlinkable_scratch)
  also have "(scratch_fs m)\<lparr>nodes :=
            (\<lambda>k. if k \<in> locate (scratch_fs m) ` (set ps - {[]}) then None
                  else nodes (scratch_fs m) k)\<rparr> =
        scratch_fs (\<lambda>p. if p \<in> set ps \<and> existsSync (scratch_fs m) p then None else m p)"
    by (auto simp: scratch_fs_def existsSync_def fun_eq_iff)
  finally show ?thesis .
qed

lemma regular_files_scratch [simp]: "regular_files (scratch_fs m) = m"
  by (auto simp: regular_files_def scratch_fs_def fun_eq_iff split: option.splits)

lemma cleanup_returns:
  "cleanup ps w =
     Inr (w\<lparr>files := (\<lambda>p. if p \<in> set ps \<and> existsSync (scratch_fs (files w)) p then None
                          else files w p),
            trace := trace w @ [Cleanup ps]\<rparr>)"
  by (simp add: cleanup_def cleanupFiles_scratch)

lemma launched_append [simp]: "launched (xs @ ys) = launched xs @ launched ys"
  by (induction xs rule: launched.induct) simp_all
lemma uploads_append [simp]: "uploads (xs @ ys) = uploads xs @ uploads ys"
  by (induction xs rule: uploads.induct) simp_all
lemma responses_append [simp]: "responses (xs @ ys) = responses xs @ responses ys"
  by (induction xs rule: responses.induct) simp_all
lemma cleanups_append [simp]: "cleanups (xs @ ys) = cleanups xs @ cleanups ys"
  by (induction xs rule: cleanups.induct) simp_all

lemmas tail_defs = job_tail_def onEnd_def onError_def merge_onEnd_def merge_onError_def
  onEnd_try_def merge_onEnd_try_def uploadToSupabase_def respond_def console_error_def
  cleanup_returns

lemma job_tail_returns: "\<exists>w'. job_tail r e out ins w1 = Inr w'"
  by (simp add: tail_defs Let_def split: signal.splits sum.splits option.splits prod.splits)

lemma job_tail_cleanup:
  assumes "job_tail r e out ins w1 = Inr w'"
  shows "cleanups (trace w') = cleanups (trace w1) @ [ins @ [out]]"
    and "files w' = (\<lambda>p. if p \<in> set (ins @ [out]) \<and> existsSync (scratch_fs (files w1)) p then None else files w1 p)"
    and "launched (trace w') = launched (trace w1)"
  using assms
  by (auto simp: tail_defs Let_def split: signal.splits sum.splits option.splits prod.splits if_splits)

lemma job_tail_error:
  assumes "job_tail r e out ins w1 = Inr w'" and "ffmpeg_signal e = Error m"
  shows "uploads (trace w') = uploads (trace w1)"
    and "bucket w' = bucket w1"
    and "responses (trace w') = responses (trace w1) @ [(500, Failure (processing_failed r) m)]"
  using assms
  by (cases r; auto simp: tail_defs)+

lemma job_tail_read_error:
  assumes "job_tail r e out ins w1 = Inr w'" and "ffmpeg_signal e = End"
    and "readFileSync (scratch_fs (files w1)) out = Inl err"
  shows "uploads (trace w') = uploads (trace w1)"
    and "bucket w' = bucket w1"
    and "responses (trace w') = responses (trace w1) @ [(500, Failure (upload_failed r) (message err))]"
  using assms
  by (cases r; auto simp: tail_defs)+

lemma job_tail_upload_error:
  assumes "job_tail r e out ins w1 = Inr w'" and "ffmpeg_signal e = End"
    and "readFileSync (scratch_fs (files w1)) out = Inr buf" and "upload_error e = Some m"
  shows "uploads (trace w') = uploads (trace w1) @ [(basename out, buf)]"
    and "bucket w' = bucket w1"
    and "responses (trace w') = responses (trace w1) @ [(500, Failure (upload_failed r) m)]"
  using assms
  by (cases r; auto simp: tail_defs)+

lemma job_tail_success:
  assumes "job_tail r e out ins w1 = Inr w'" and "ffmpeg_signal e = End"
    and "readFileSync (scratch_fs (files w1)) out = Inr buf" and "upload_error e = None"
  shows "uploads (trace w') = uploads (trace w1) @ [(basename out, buf)]"
    and "bucket w' = (bucket w1)(basename out \<mapsto> buf)"
    and "responses (trace w') = responses (trace w1) @ [(200, Success (getPublicUrl e (basename out)))]"
  using assms
  by (cases r; auto simp: tail_defs)+

lemma run_ffmpeg_simps [simp]:
  "trace (run_ffmpeg e m c out w) = trace w @ [Run m c out]"
  "files (run_ffmpeg e m c out w) = engine_files e out (files w)"
  "bucket (run_ffmpeg e m c out w) = bucket w"
  by (simp_all add: run_ffmpeg_def)

lemma processAndUpload_tail:
  "r \<noteq> Merge \<Longrightarrow> processAndUpload e c out ins w =
     job_tail r e out ins (run_ffmpeg e Save (outputOptions [''-threads 1'', ''-preset ultrafast''] c) out w)"
  by (simp add: processAndUpload_def job_tail_def Let_def split: signal.splits)

lemma resource_limited_outputOptions [simp]:
  "resource_limited (outputOptions [''-threads 1'', ''-preset ultrafast''] c)"
  by (simp add: resource_limited_def outputOptions_def)

lemma trim_valid:
  "req_file req = Some p \<Longrightarrow>
   trim e now req w =
     job_tail Trim e (outputPath_of Trim now) [p]
       (run_ffmpeg e Save
          (outputOptions [''-threads 1'', ''-preset ultrafast'']
             (outputOptions [''-c copy'']
                (setDuration (field_or (req_body req) ''duration'' 5)
                   (setStartTime (field_or (req_body req) ''startTime'' 0) (ffmpeg p)))))
          (outputPath_of Trim now) w)"
  by (simp add: trim_def Let_def outputPath_of_def artifact_name_def
        processAndUpload_tail [of Trim])

lemma crop_valid:
  "req_file req = Some p \<Longrightarrow>
   crop e now req w =
     job_tail Crop e (outputPath_of Crop now) [p]
       (run_ffmpeg e Save
          (outputOptions [''-threads 1'', ''-preset ultrafast'']
             (videoFilters
                (''crop='' @ to_str (field_or (req_body req) ''w'' 1080) @ '':''
                   @ to_str (field_or (req_body req) ''h'' 1920) @ '':''
                   @ to_str (field_or (req_body req) ''x'' 0) @ '':''
                   @ to_str (field_or (req_body req) ''y'' 0))
                (ffmpeg p)))
          (outputPath_of Crop now) w)"
  by (simp add: crop_def Let_def outputPath_of_def artifact_name_def
        processAndUpload_tail [of Crop])

lemma field_path_SomeD:
  "field_path fsv name = Some p \<Longrightarrow> \<exists>m rest. fsv = FilesObject m \<and> m name = Some (p # rest)"
  by (auto simp: field_path_def split: req_files.splits option.splits list.splits)

lemma addVoice_valid:
  assumes "field_path (req_files req) ''video'' = Some v"
    and "field_path (req_files req) ''audio'' = Some a"
  shows "addVoice e now req w =
     job_tail AddVoice e (outputPath_of AddVoice now) [v, a]
       (run_ffmpeg e Save
          (outputOptions [''-threads 1'', ''-preset ultrafast'']
             (outputOptions [''-c:v copy'', ''-map 0:v:0'', ''-map 1:a:0'', ''-shortest'']
                (addInput a (ffmpeg v))))
          (outputPath_of AddVoice now) w)"
proof -
  from assms(1) obtain m r1 where m: "req_files req = FilesObject m" "m ''video'' = Some (v # r1)"
    by (blast dest: field_path_SomeD)
  from assms(2) m(1) obtain r2 where a: "m ''audio'' = Some (a # r2)"
    by (auto dest: field_path_SomeD)
  show ?thesis
    by (simp add: addVoice_def m a files_field_def first_path_def Let_def outputPath_of_def
          artifact_name_def processAndUpload_tail [of AddVoice])
qed

lemma addCaption_valid:
  assumes "field_path (req_files req) ''video'' = Some v"
    and "field_path (req_files req) ''subtitle'' = Some s"
  shows "addCaption e now req w =
     job_tail AddCaption e (outputPath_of AddCaption now) [v, path_resolve e s]
       (run_ffmpeg e Save
          (outputOptions [''-threads 1'', ''-preset ultrafast'']
             (videoFilters (''subtitles='' @ path_resolve e s) (ffmpeg v)))
          (outputPath_of AddCaption now) w)"
proof -
  from assms(1) obtain m r1 where m: "req_files req = FilesObject m" "m ''video'' = Some (v # r1)"
    by (blast dest: field_path_SomeD)
  from assms(2) m(1) obtain r2 where a: "m ''subtitle'' = Some (s # r2)"
    by (auto dest: field_path_SomeD)
  show ?thesis
    by (simp add: addCaption_def m a files_field_def first_path_def Let_def outputPath_of_def
          artifact_name_def processAndUpload_tail [of AddCaption])
qed

lemma merge_valid:
  "req_files req = FilesArray fs \<Longrightarrow> length fs = 2 \<Longrightarrow>
   merge e now req w =
     job_tail Merge e (outputPath_of Merge now) fs
       (run_ffmpeg e (MergeToFile ''/tmp/'')
          (outputOptions [''-threads 1'', ''-preset ultrafast''] (fold addInput fs ffmpeg_empty))
          (outputPath_of Merge now) w)"
  by (simp add: merge_def Let_def outputPath_of_def artifact_name_def job_tail_def
        split: signal.splits)

lemma valid_intro:
  assumes "h = job_tail r e out ins
                 (run_ffmpeg e m (outputOptions [''-threads 1'', ''-preset ultrafast''] c0) out w)"
  shows "\<exists>c. resource_limited c \<and> h = job_tail r e out ins (run_ffmpeg e m c out w)"
  using assms resource_limited_outputOptions by blast

lemma handle_valid:
  assumes "input_paths r e req = Some ins"
  shows "\<exists>c. resource_limited c \<and>
           handle r e now req w =
             job_tail r e (outputPath_of r now) ins
               (run_ffmpeg e (run_mode_of r) c (outputPath_of r now) w)"
proof (cases r)
  case Trim
  with assms obtain p where "req_file req = Some p" "ins = [p]" by auto
  with Trim show ?thesis
    by (simp del: ex_simps) (rule valid_intro, rule trim_valid)
next
  case Crop
  with assms obtain p where "req_file req = Some p" "ins = [p]" by auto
  with Crop show ?thesis
    by (simp del: ex_simps) (rule valid_intro, rule crop_valid)
next
  case AddVoice
  with assms obtain v a where "field_path (req_files req) ''video'' = Some v"
      "field_path (req_files req) ''audio'' = Some a" "ins = [v, a]"
    by (auto split: option.splits)
  with AddVoice show ?thesis
    by (simp del: ex_simps) (rule valid_intro, rule addVoice_valid)
next
  case AddCaption
  with assms obtain v s where "field_path (req_files req) ''video'' = Some v"
      "field_path (req_files req) ''subtitle'' = Some s" "ins = [v, path_resolve e s]"
    by (auto split: option.splits)
  with AddCaption show ?thesis
    by (simp del: ex_simps) (rule valid_intro, rule addCaption_valid)
next
  case Merge
  with assms have "req_files req = FilesArray ins" "length ins = 2"
    by (auto split: req_files.splits if_splits)
  with Merge show ?thesis
    by (simp del: ex_simps) (rule valid_intro, rule merge_valid)
qed

lemma job_tail_error_trace:
  assumes "job_tail r e out ins w1 = Inr w'" and "ffmpeg_signal e = Error m"
  shows "\<exists>evs. trace w' =
           trace w1 @ evs @ [Cleanup (ins @ [out]), Respond 500 (Failure (processing_failed r) m)]"
  using assms by (cases r; auto simp: tail_defs)

lemma job_tail_end_trace:
  assumes "job_tail r e out ins w1 = Inr w'" and "ffmpeg_signal e = End"
  shows "\<exists>evs st pl. trace w' = trace w1 @ evs @ [Respond st pl, Cleanup (ins @ [out])]"
  using assms
  by (cases r; auto simp: tail_defs Let_def split: sum.splits option.splits prod.splits)

lemma handle_invalid:
  assumes "input_paths r e req = None"
  shows "(\<exists>err. handle r e now req w = Inl err) \<or>
         handle r e now req w = Inr (respond 400 (Rejected (rejection r)) w)"
proof (cases r)
  case Trim
  with assms show ?thesis by (simp add: trim_def)
next
  case Crop
  with assms show ?thesis by (simp add: crop_def)
next
  case AddVoice
  with assms show ?thesis
    by (auto simp: addVoice_def field_path_def files_field_def first_path_def Let_def
          split: req_files.splits option.splits list.splits)
next
  case AddCaption
  with assms show ?thesis
    by (auto simp: addCaption_def field_path_def files_field_def first_path_def Let_def
          split: req_files.splits option.splits list.splits)
next
  case Merge
  with assms show ?thesis
    by (auto simp: merge_def split: req_files.splits if_splits)
qed

lemma job_tail_trace:
  assumes "job_tail r e out ins w1 = Inr w'"
  shows "\<exists>evs. trace w' = trace w1 @ evs"
proof (cases "ffmpeg_signal e")
  case End
  from job_tail_end_trace [OF assms End] show ?thesis by blast
next
  case (Error m)
  from job_tail_error_trace [OF assms Error] show ?thesis by blast
qed

lemma launched_after_run:
  assumes "job_tail r e out ins (run_ffmpeg e m c out w) = Inr w'"
  shows "launched (trace w') = launched (trace w) @ [(m, c, out)]"
  using job_tail_cleanup(3) [OF assms] by simp

lemma failure_messages_differ: "processing_failed r \<noteq> upload_failed r"
  by (cases r) simp_all

section \<open>Artifact names\<close>

lemma digit_char_not_slash: "digit_char d \<noteq> CHR ''/''"
proof -
  have "d mod 10 < length ''0123456789''" by simp
  then have "digit_char d \<in> set ''0123456789''"
    unfolding digit_char_def by (rule nth_mem)
  then show ?thesis by auto
qed

lemma string_of_nat_no_slash: "CHR ''/'' \<notin> set (string_of_nat n)"
proof (induction n rule: string_of_nat.induct)
  case (1 n)
  show ?case
  proof (cases "n < 10")
    case True
    then show ?thesis
      using digit_char_not_slash [of n] by (simp add: string_of_nat.simps [of n])
  next
    case False
    with 1 show ?thesis
      using digit_char_not_slash [of "n mod 10"] by (simp add: string_of_nat.simps [of n])
  qed
qed

lemma basename_last_segment:
  assumes "CHR ''/'' \<notin> set s" and "s \<noteq> []"
  shows "basename (d @ ''/'' @ s) = s"
proof -
  from assms have hd_ok: "hd (rev s) \<noteq> CHR ''/''"
    by (metis hd_rev last_in_set)
  from assms(2) have "rev s \<noteq> []" by simp
  with hd_ok have drop: "dropWhile (\<lambda>c. c = CHR ''/'') (rev s @ CHR ''/'' # rev d) = rev s @ CHR ''/'' # rev d"
    by (cases "rev s") auto
  have take: "takeWhile (\<lambda>c. c \<noteq> CHR ''/'') (rev s @ CHR ''/'' # rev d) = rev s"
    using assms(1) by (auto simp: takeWhile_tail)
  show ?thesis
    by (simp add: basename_def drop take)
qed

lemma artifact_name_no_slash: "CHR ''/'' \<notin> set (artifact_name r now)"
  by (cases r) (simp_all add: artifact_name_def string_of_nat_no_slash)

lemma basename_outputPath: "basename (outputPath_of r now) = artifact_name r now"
proof -
  have "artifact_name r now \<noteq> []" by (simp add: artifact_name_def)
  with artifact_name_no_slash [of r now]
  have "basename (''/tmp'' @ ''/'' @ artifact_name r now) = artifact_name r now"
    by (rule basename_last_segment)
  then show ?thesis by (simp add: outputPath_of_def)
qed

lemma digit_value_digit_char: "digit_value (digit_char d) = d mod 10"
proof -
  have "d mod 10 = 0 \<or> d mod 10 = 1 \<or> d mod 10 = 2 \<or> d mod 10 = 3 \<or> d mod 10 = 4 \<or>
        d mod 10 = 5 \<or> d mod 10 = 6 \<or> d mod 10 = 7 \<or> d mod 10 = 8 \<or> d mod 10 = 9"
    by arith
  then show ?thesis
    by (auto simp: digit_value_def digit_char_def)
qed

lemma decimal_value_snoc: "decimal_value (s @ [c]) = 10 * decimal_value s + digit_value c"
  by (simp add: decimal_value_def)

lemma decimal_value_string_of_nat: "decimal_value (string_of_nat n) = n"
proof (induction n rule: string_of_nat.induct)
  case (1 n)
  show ?case
  proof (cases "n < 10")
    case True
    then show ?thesis
      by (simp add: string_of_nat.simps [of n] decimal_value_def digit_value_digit_char)
  next
    case False
    with 1 show ?thesis
      by (simp add: string_of_nat.simps [of n] decimal_value_snoc digit_value_digit_char)
  qed
qed

lemma digit_char_digit: "digit_char d \<in> set ''0123456789''"
proof -
  have "d mod 10 < length ''0123456789''" by simp
  then show ?thesis unfolding digit_char_def by (rule nth_mem)
qed

lemma string_of_nat_digits: "set (string_of_nat n) \<subseteq> set ''0123456789''"
proof (induction n rule: string_of_nat.induct)
  case (1 n)
  show ?case
  proof (cases "n < 10")
    case True
    then show ?thesis
      using digit_char_digit [of n] by (simp add: string_of_nat.simps [of n])
  next
    case False
    with 1 show ?thesis
      using digit_char_digit [of "n mod 10"] by (simp add: string_of_nat.simps [of n])
  qed
qed

lemma string_of_nat_nonempty: "string_of_nat n \<noteq> []"
  by (simp add: string_of_nat.simps [of n])

lemma digit_char_zero: "digit_char d = CHR ''0'' \<Longrightarrow> d mod 10 = 0"
proof -
  assume z: "digit_char d = CHR ''0''"
  have "d mod 10 = 0 \<or> d mod 10 = 1 \<or> d mod 10 = 2 \<or> d mod 10 = 3 \<or> d mod 10 = 4 \<or>
        d mod 10 = 5 \<or> d mod 10 = 6 \<or> d mod 10 = 7 \<or> d mod 10 = 8 \<or> d mod 10 = 9"
    by arith
  with z show ?thesis
    by (auto simp: digit_char_def)
qed

lemma string_of_nat_no_leading_zero: "n = 0 \<or> hd (string_of_nat n) \<noteq> CHR ''0''"
proof (induction n rule: string_of_nat.induct)
  case (1 n)
  show ?case
  proof (cases "n < 10")
    case True
    then show ?thesis
      using digit_char_zero [of n] by (auto simp: string_of_nat.simps [of n])
  next
    case False
    then have "n div 10 \<noteq> 0" by simp
    with 1 False have "hd (string_of_nat (n div 10)) \<noteq> CHR ''0''" by blast
    with False show ?thesis
      by (simp add: string_of_nat.simps [of n] string_of_nat_nonempty)
  qed
qed

section \<open>Concrete numbers and a concrete Job\<close>

lemma string_of_nat_now: "string_of_nat 1700000000000 = ''1700000000000''"
  by (simp add: string_of_nat.simps digit_char_def)

lemma string_of_nat_1000: "string_of_nat 1000 = ''1000''"
  by (simp add: string_of_nat.simps digit_char_def)

lemma outputPath_1000 [simp]:
  "outputPath_of Trim 1000 = ''/tmp/trimmed_1000.mp4''"
  by (simp add: outputPath_of_def artifact_name_def string_of_nat_1000)

lemma one_video_valid [simp]: "input_paths Trim e one_video = Some [''/tmp/up1'']"
  by (simp add: one_video_def)

lemma concrete_success:
  assumes "ffmpeg_signal e = End" and "ffmpeg_output e = Some buf" and "upload_error e = None"
  shows "\<exists>w'. handle Trim e 1000 one_video scratch = Inr w' \<and>
           uploads (trace w') = [(''trimmed_1000.mp4'', buf)] \<and>
           bucket w' = [''trimmed_1000.mp4'' \<mapsto> buf] \<and>
           responses (trace w') = [(200, Success (getPublicUrl e ''trimmed_1000.mp4''))]"
proof -
  let ?out = "''/tmp/trimmed_1000.mp4''"
  from handle_valid [OF one_video_valid, of e 1000 scratch] obtain c where
    h: "handle Trim e 1000 one_video scratch =
          job_tail Trim e ?out [''/tmp/up1''] (run_ffmpeg e Save c ?out scratch)"
    by auto
  let ?w1 = "run_ffmpeg e Save c ?out scratch"
  from job_tail_returns [of Trim e ?out "[''/tmp/up1'']" ?w1] obtain w' where
    w': "job_tail Trim e ?out [''/tmp/up1''] ?w1 = Inr w'" by blast
  have rd: "readFileSync (scratch_fs (files ?w1)) ?out = Inr buf"
    by (simp add: readFileSync_scratch engine_files_def assms(2))
  have b: "basename ?out = ''trimmed_1000.mp4''"
    by (simp add: basename_def)
  from job_tail_success [OF w' assms(1) rd assms(3)] h w' show ?thesis
    by (simp add: b scratch_def)
qed

lemma artifact_1000 [simp]: "artifact_name Trim 1000 = ''trimmed_1000.mp4''"
  by (simp add: artifact_name_def string_of_nat_1000)

lemma string_of_nat_defaults:
  "string_of_nat 0 = ''0''" "string_of_nat 5 = ''5''"
  "string_of_nat 1080 = ''1080''" "string_of_nat 1920 = ''1920''"
  by (simp_all add: string_of_nat.simps digit_char_def)

section \<open>The claims\<close>

subsection \<open>Cleanup of a list of paths\<close>

text \<open>
  Claim C3, as the code has it. Take a list of paths in which every path that exists is
  a regular file whose removal is not refused. Then \<open>cleanupFiles\<close> returns without an
  error; afterwards none of the listed paths exists, under any of the spellings listed;
  what is at a location that no listed path names is left as it was, and a path that did
  not exist still does not (a missing file is skipped, not reported); running it again
  on the same list returns the same file system unchanged.
\<close>

theorem cleanupFiles_skips_missing:
  assumes "\<forall>p \<in> set ps. existsSync fs p \<longrightarrow> unlinkable fs p"
  shows "\<exists>fs'. cleanupFiles ps fs = Inr fs' \<and>
           (\<forall>p \<in> set ps. \<not> existsSync fs' p) \<and>
           (\<forall>k. k \<notin> locate fs ` set ps \<longrightarrow> nodes fs' k = nodes fs k) \<and>
           (\<forall>p. \<not> existsSync fs p \<longrightarrow> \<not> existsSync fs' p) \<and>
           locate fs' = locate fs \<and> denied fs' = denied fs \<and>
           cleanupFiles ps fs' = Inr fs'"
proof -
  let ?fs' = "fs\<lparr>nodes := (\<lambda>k. if k \<in> locate fs ` (set ps - {[]}) then None else nodes fs k)\<rparr>"
  have first: "cleanupFiles ps fs = Inr ?fs'"
    by (rule cleanupFiles_returns [OF assms])
  have gone: "\<forall>p \<in> set ps. \<not> existsSync ?fs' p"
    by (auto simp: existsSync_def)
  have others: "\<forall>k. k \<notin> locate fs ` set ps \<longrightarrow> nodes ?fs' k = nodes fs k"
    by auto
  have missing: "\<forall>p. \<not> existsSync fs p \<longrightarrow> \<not> existsSync ?fs' p"
    by (auto simp: existsSync_def)
  have pre: "\<forall>p \<in> set ps. existsSync ?fs' p \<longrightarrow> unlinkable ?fs' p"
    using gone by simp
  have same: "(\<lambda>k. if k \<in> locate ?fs' ` (set ps - {[]}) then None else nodes ?fs' k) = nodes ?fs'"
    by (auto simp: fun_eq_iff)
  have again: "cleanupFiles ps ?fs' = Inr ?fs'"
    unfolding cleanupFiles_returns [OF pre] same by simp
  from first gone others missing again show ?thesis
    by - (rule exI [where x = ?fs'], simp)
qed

theorem cleanupFiles_skips_missing_witness:
  "\<exists>fs'. cleanupFiles [''/tmp//up1'', ''/tmp/never-written.mp4'', ''/tmp/up1''] two_spellings = Inr fs' \<and>
         \<not> existsSync fs' ''/tmp/up1'' \<and> \<not> existsSync fs' ''/tmp//up1'' \<and>
         \<not> existsSync fs' ''/tmp/never-written.mp4'' \<and>
         nodes fs' ''/tmp/keep'' = Some (File ''kept'') \<and>
         nodes fs' ''/tmp/frames'' = Some Dir \<and>
         cleanupFiles [''/tmp//up1'', ''/tmp/never-written.mp4'', ''/tmp/up1''] fs' = Inr fs'"
proof -
  let ?ps = "[''/tmp//up1'', ''/tmp/never-written.mp4'', ''/tmp/up1'']"
  have pre: "\<forall>p \<in> set ?ps. existsSync two_spellings p \<longrightarrow> unlinkable two_spellings p"
    by (simp add: existsSync_def unlinkable_def two_spellings_def)
  from cleanupFiles_skips_missing [OF pre]
  obtain fs' where fs': "cleanupFiles ?ps two_spellings = Inr fs'"
      "\<forall>p \<in> set ?ps. \<not> existsSync fs' p"
      "\<forall>k. k \<notin> locate two_spellings ` set ?ps \<longrightarrow> nodes fs' k = nodes two_spellings k"
      "cleanupFiles ?ps fs' = Inr fs'"
    by blast
  from fs'(3) have "nodes fs' ''/tmp/keep'' = Some (File ''kept'')"
    and "nodes fs' ''/tmp/frames'' = Some Dir"
    by (simp_all add: two_spellings_def)
  with fs'(1,2,4) show ?thesis by auto
qed

text \<open>
  Claim C3 as stated is for every list of paths. Where a listed path is an existing
  directory, \<open>existsSync\<close> is true of it and \<open>unlinkSync\<close> throws: the cleanup raises,
  the paths listed before it are removed and the paths after it are left in place. The
  same happens at an existing file whose removal the operating system refuses.
\<close>

theorem cleanupFiles_directory_counterexample:
  "existsSync two_spellings ''/tmp/frames'' \<and>
   existsSync two_spellings ''/tmp/up1'' \<and>
   cleanupFiles [''/tmp/frames'', ''/tmp/up1''] two_spellings =
     Inl (SystemError (''EISDIR: illegal operation on a directory, unlink '' @ quoted ''/tmp/frames''),
          two_spellings) \<and>
   cleanupFiles [''/tmp/keep'', ''/tmp/frames'', ''/tmp/up1''] two_spellings =
     Inl (SystemError (''EISDIR: illegal operation on a directory, unlink '' @ quoted ''/tmp/frames''),
          two_spellings\<lparr>nodes := (nodes two_spellings)(''/tmp/keep'' := None)\<rparr>) \<and>
   cleanupFiles [''/tmp/keep'', ''/tmp/up1''] (two_spellings\<lparr>denied := {''/tmp/keep''}\<rparr>) =
     Inl (SystemError (''EPERM: operation not permitted, unlink '' @ quoted ''/tmp/keep''),
          two_spellings\<lparr>denied := {''/tmp/keep''}\<rparr>)"
  by (simp add: existsSync_def unlinkSync_def two_spellings_def)

subsection \<open>The retention sweep\<close>

lemma filesToDelete_spec: "filesToDelete now fs = spec_delete_set now fs"
proof -
  have "(created_at f < oneDayAgo now) = (age now f > 24 * 3600 * 1000)" for f
    by (simp add: oneDayAgo_def age_def) arith
  then show ?thesis
    by (simp add: filesToDelete_def spec_delete_set_def)
qed

text \<open>
  Claim C9. The names the sweep collects are exactly the names of the listed objects
  whose age, \<open>now\<close> minus the creation timestamp, is more than 24 hours; one
  bulk-delete call with that list is issued when it is not empty, and none when it is
  empty or when the listing failed. The instance below has an object of 25 hours, which
  is removed, one of 1 hour and one of exactly 24 hours, which are not.
\<close>

theorem sweep_delete_set:
  "filesToDelete now fs = spec_delete_set now fs \<and>
   set (filesToDelete now fs) = {obj_name f |f. f \<in> set fs \<and> age now f > 24 * 3600 * 1000} \<and>
   sweep now (Some fs) =
     (if spec_delete_set now fs = [] then [] else [Remove (spec_delete_set now fs)]) \<and>
   sweep now None = []"
  by (auto simp: filesToDelete_spec sweep_def spec_delete_set_def)

theorem sweep_delete_set_witness:
  "sweep (100 * 3600 * 1000)
     (Some [\<lparr>obj_name = ''trimmed_1.mp4'', created_at = 75 * 3600 * 1000\<rparr>,
            \<lparr>obj_name = ''merged_2.mp4'', created_at = 99 * 3600 * 1000\<rparr>]) =
     [Remove [''trimmed_1.mp4'']] \<and>
   sweep (100 * 3600 * 1000)
     (Some [\<lparr>obj_name = ''cropped_3.mp4'', created_at = 76 * 3600 * 1000\<rparr>]) = []"
  using sweep_delete_set [of "100 * 3600 * 1000"
      "[\<lparr>obj_name = ''trimmed_1.mp4'', created_at = 75 * 3600 * 1000\<rparr>,
        \<lparr>obj_name = ''merged_2.mp4'', created_at = 99 * 3600 * 1000\<rparr>]"]
    sweep_delete_set [of "100 * 3600 * 1000"
      "[\<lparr>obj_name = ''cropped_3.mp4'', created_at = 76 * 3600 * 1000\<rparr>]"]
  by (simp add: spec_delete_set_def age_def)

subsection \<open>Cleanup on every terminal path\<close>

text \<open>
  Claim C1, as the code has it. For every route and every request that passes the
  route's validation, whatever the engine and the storage service do, the handler
  returns; \<open>cleanupFiles\<close> is called exactly once, with all the input paths followed by
  the output path; when the handler has finished none of these paths exists; exactly one
  response is sent. When the engine fails, the cleanup comes before the response; when
  the engine ends well, the response (success or upload failure) is sent first and the
  cleanup follows it, from the \<^verbatim>\<open>finally\<close> block.
\<close>

theorem cleanup_once_on_every_path:
  assumes "input_paths r e req = Some ins"
  shows "\<exists>w'. handle r e now req w = Inr w' \<and>
           cleanups (trace w') = cleanups (trace w) @ [ins @ [outputPath_of r now]] \<and>
           (\<forall>p \<in> set (ins @ [outputPath_of r now]). \<not> existsSync (scratch_fs (files w')) p) \<and>
           (\<exists>st pl. responses (trace w') = responses (trace w) @ [(st, pl)]) \<and>
           (case ffmpeg_signal e of
              Error m \<Rightarrow>
                \<exists>evs pl. trace w' =
                  trace w @ evs @ [Cleanup (ins @ [outputPath_of r now]), Respond 500 pl]
            | End \<Rightarrow>
                \<exists>evs st pl. trace w' =
                  trace w @ evs @ [Respond st pl, Cleanup (ins @ [outputPath_of r now])])"
proof -
  let ?out = "outputPath_of r now"
  from handle_valid [OF assms, of now w] obtain c where
    h: "handle r e now req w = job_tail r e ?out ins (run_ffmpeg e (run_mode_of r) c ?out w)"
    by blast
  let ?w1 = "run_ffmpeg e (run_mode_of r) c ?out w"
  from job_tail_returns [of r e ?out ins ?w1] obtain w' where
    w': "job_tail r e ?out ins ?w1 = Inr w'" by blast
  have once: "cleanups (trace w') = cleanups (trace w) @ [ins @ [?out]]"
    using job_tail_cleanup(1) [OF w'] by simp
  have gone: "\<forall>p \<in> set (ins @ [?out]). \<not> existsSync (scratch_fs (files w')) p"
    unfolding job_tail_cleanup(2) [OF w'] by (simp add: existsSync_scratch)
  have order: "case ffmpeg_signal e of
              Error m \<Rightarrow>
                \<exists>evs pl. trace w' = trace w @ evs @ [Cleanup (ins @ [?out]), Respond 500 pl]
            | End \<Rightarrow>
                \<exists>evs st pl. trace w' = trace w @ evs @ [Respond st pl, Cleanup (ins @ [?out])]"
  proof (cases "ffmpeg_signal e")
    case End
    from job_tail_end_trace [OF w' End] obtain evs st pl where
      "trace w' = trace ?w1 @ evs @ [Respond st pl, Cleanup (ins @ [?out])]" by blast
    then have "trace w' = trace w @ (Run (run_mode_of r) c ?out # evs) @ [Respond st pl, Cleanup (ins @ [?out])]"
      by simp
    with End show ?thesis by (auto simp del: append.simps append_assoc)
  next
    case (Error m)
    from job_tail_error_trace [OF w' Error] obtain evs where
      "trace w' = trace ?w1 @ evs @ [Cleanup (ins @ [?out]), Respond 500 (Failure (processing_failed r) m)]"
      by blast
    then have "trace w' = trace w @ (Run (run_mode_of r) c ?out # evs) @ [Cleanup (ins @ [?out]), Respond 500 (Failure (processing_failed r) m)]"
      by simp
    with Error show ?thesis by (auto simp del: append.simps append_assoc)
  qed
  have one: "\<exists>st pl. responses (trace w') = responses (trace w) @ [(st, pl)]"
  proof (cases "ffmpeg_signal e")
    case (Error m)
    from job_tail_error(3) [OF w' Error] show ?thesis by simp
  next
    case End
    show ?thesis
    proof (cases "readFileSync (scratch_fs (files ?w1)) ?out")
      case (Inl err)
      from job_tail_read_error(3) [OF w' End Inl] show ?thesis by simp
    next
      case (Inr buf)
      show ?thesis
      proof (cases "upload_error e")
        case None
        from job_tail_success(3) [OF w' End Inr None] show ?thesis by simp
      next
        case (Some m)
        from job_tail_upload_error(3) [OF w' End Inr Some] show ?thesis by simp
      qed
    qed
  qed
  from h w' once gone one order show ?thesis by simp
qed

theorem cleanup_once_on_every_path_witness:
  "cleanups (trace_of (handle Trim (good_env (Some ''mp4-bytes'')) 1000 one_video scratch)) =
     [[''/tmp/up1'', ''/tmp/trimmed_1000.mp4'']] \<and>
   cleanups (trace_of (handle Trim (failing_engine ''exit 1'') 1000 one_video scratch)) =
     [[''/tmp/up1'', ''/tmp/trimmed_1000.mp4'']] \<and>
   cleanups (trace_of (handle Trim (failing_storage ''quota'') 1000 one_video scratch)) =
     [[''/tmp/up1'', ''/tmp/trimmed_1000.mp4'']]"
proof -
  have "cleanups (trace_of (handle Trim e 1000 one_video scratch)) =
          [[''/tmp/up1'', ''/tmp/trimmed_1000.mp4'']]" for e
  proof -
    from cleanup_once_on_every_path [OF one_video_valid, of e 1000 scratch]
    obtain w' where "handle Trim e 1000 one_video scratch = Inr w'"
      and "cleanups (trace w') =
             cleanups (trace scratch) @ [[''/tmp/up1''] @ [outputPath_of Trim 1000]]"
      by blast
    then show ?thesis by (simp add: trace_of_def scratch_def)
  qed
  then show ?thesis by simp
qed

text \<open>
  Claim C1 as stated asks for the files to be gone by the time the response is sent.
  On the trim Job of one uploaded video whose upload succeeds, the handler is the
  cleanup applied to the world \<open>responded\<close>; in that world the success response has
  already been sent, and both the uploaded file and the output file still exist.
\<close>

theorem response_precedes_cleanup_counterexample:
  "handle Trim (good_env (Some ''mp4-bytes'')) 1000 one_video scratch =
     cleanup [''/tmp/up1'', ''/tmp/trimmed_1000.mp4''] responded \<and>
   trace responded =
     [Run Save
        \<lparr>cmd_inputs = [''/tmp/up1''], cmd_startTime = Some (JNum 0),
         cmd_duration = Some (JNum 5), cmd_videoFilters = [],
         cmd_outputOptions = [''-c copy'', ''-threads 1'', ''-preset ultrafast'']\<rparr>
        ''/tmp/trimmed_1000.mp4'',
      Upload ''trimmed_1000.mp4'' ''mp4-bytes'',
      Respond 200 (Success ''https://store.example/videos/trimmed_1000.mp4'')] \<and>
   existsSync (scratch_fs (files responded)) ''/tmp/up1'' \<and>
   existsSync (scratch_fs (files responded)) ''/tmp/trimmed_1000.mp4''"
proof -
  have b: "basename ''/tmp/trimmed_1000.mp4'' = ''trimmed_1000.mp4''"
    by (simp add: basename_def)
  have "handle Trim (good_env (Some ''mp4-bytes'')) 1000 one_video scratch =
     cleanup [''/tmp/up1'', ''/tmp/trimmed_1000.mp4''] responded"
    by (simp add: trim_def one_video_def field_or_def string_of_nat_1000 processAndUpload_def
          good_env_def onEnd_def responded_def Let_def)
  moreover have "trace responded =
     [Run Save
        \<lparr>cmd_inputs = [''/tmp/up1''], cmd_startTime = Some (JNum 0),
         cmd_duration = Some (JNum 5), cmd_videoFilters = [],
         cmd_outputOptions = [''-c copy'', ''-threads 1'', ''-preset ultrafast'']\<rparr>
        ''/tmp/trimmed_1000.mp4'',
      Upload ''trimmed_1000.mp4'' ''mp4-bytes'',
      Respond 200 (Success ''https://store.example/videos/trimmed_1000.mp4'')]"
    by (simp add: responded_def onEnd_try_def uploadToSupabase_def readFileSync_scratch b
          engine_files_def good_env_def respond_def scratch_def Let_def outputOptions_def
          setDuration_def setStartTime_def ffmpeg_def addInput_def ffmpeg_empty_def)
  moreover have "existsSync (scratch_fs (files responded)) ''/tmp/up1''"
    by (simp add: responded_def onEnd_try_def uploadToSupabase_def readFileSync_scratch b
          engine_files_def good_env_def respond_def scratch_def Let_def existsSync_scratch)
  moreover have "existsSync (scratch_fs (files responded)) ''/tmp/trimmed_1000.mp4''"
    by (simp add: responded_def onEnd_try_def uploadToSupabase_def readFileSync_scratch b
          engine_files_def good_env_def respond_def scratch_def Let_def existsSync_scratch)
  ultimately show ?thesis by simp
qed

subsection \<open>Uploads follow the end signal\<close>

text \<open>
  Claim C2, as the code has it. For every route and every request that passes the
  route's validation, the handler returns and the first thing it does is start the
  engine. When the engine signals an error, no upload is attempted and the bucket is
  unchanged. When it signals the end, an upload is attempted only if the output file can
  be read, once, under the artifact name and with exactly the bytes the file holds at
  that moment; the bucket gains that object when the storage service accepts the upload
  and is unchanged otherwise. When the output file cannot be read, nothing is uploaded
  and the response is the route's upload failure. Nothing checks that the bytes are not
  empty.
\<close>

theorem upload_only_after_end:
  assumes "input_paths r e req = Some ins"
  shows "\<exists>w' c evs. handle r e now req w = Inr w' \<and>
           trace w' = trace w @ Run (run_mode_of r) c (outputPath_of r now) # evs \<and>
           (case ffmpeg_signal e of
              Error m \<Rightarrow> uploads evs = [] \<and> bucket w' = bucket w
            | End \<Rightarrow>
                (case readFileSync (scratch_fs (engine_files e (outputPath_of r now) (files w)))
                        (outputPath_of r now) of
                   Inl err \<Rightarrow>
                     uploads evs = [] \<and> bucket w' = bucket w \<and>
                     responses (trace w') =
                       responses (trace w) @ [(500, Failure (upload_failed r) (message err))]
                 | Inr buf \<Rightarrow>
                     uploads evs = [(artifact_name r now, buf)] \<and>
                     (case upload_error e of
                        Some m \<Rightarrow> bucket w' = bucket w
                      | None \<Rightarrow> bucket w' = (bucket w)(artifact_name r now \<mapsto> buf))))"
proof -
  let ?out = "outputPath_of r now"
  from handle_valid [OF assms, of now w] obtain c where
    h: "handle r e now req w = job_tail r e ?out ins (run_ffmpeg e (run_mode_of r) c ?out w)"
    by blast
  let ?w1 = "run_ffmpeg e (run_mode_of r) c ?out w"
  from job_tail_returns [of r e ?out ins ?w1] obtain w' where
    w': "job_tail r e ?out ins ?w1 = Inr w'" by blast
  from job_tail_trace [OF w'] obtain evs where
    evs: "trace w' = trace w @ Run (run_mode_of r) c ?out # evs" by auto
  have ups: "uploads (trace w') = uploads (trace ?w1) @ uploads evs"
    by (simp add: evs)
  have "case ffmpeg_signal e of
              Error m \<Rightarrow> uploads evs = [] \<and> bucket w' = bucket w
            | End \<Rightarrow>
                (case readFileSync (scratch_fs (engine_files e ?out (files w))) ?out of
                   Inl err \<Rightarrow>
                     uploads evs = [] \<and> bucket w' = bucket w \<and>
                     responses (trace w') =
                       responses (trace w) @ [(500, Failure (upload_failed r) (message err))]
                 | Inr buf \<Rightarrow>
                     uploads evs = [(artifact_name r now, buf)] \<and>
                     (case upload_error e of
                        Some m \<Rightarrow> bucket w' = bucket w
                      | None \<Rightarrow> bucket w' = (bucket w)(artifact_name r now \<mapsto> buf)))"
  proof (cases "ffmpeg_signal e")
    case (Error m)
    from job_tail_error(1,2) [OF w' Error] ups Error show ?thesis by simp
  next
    case End
    show ?thesis
    proof (cases "readFileSync (scratch_fs (files ?w1)) ?out")
      case (Inl err)
      from job_tail_read_error [OF w' End Inl] ups End Inl show ?thesis by simp
    next
      case (Inr buf)
      show ?thesis
      proof (cases "upload_error e")
        case None
        from job_tail_success(1,2) [OF w' End Inr None] ups End Inr None show ?thesis
          by (simp add: basename_outputPath)
      next
        case (Some m)
        from job_tail_upload_error(1,2) [OF w' End Inr Some] ups End Inr Some show ?thesis
          by (simp add: basename_outputPath)
      qed
    qed
  qed
  with h w' evs show ?thesis
    by - (rule exI [where x = w'], rule exI [where x = c], rule exI [where x = evs], simp)
qed

theorem upload_only_after_end_witness:
  "uploads (trace_of (handle Trim (failing_engine ''exit 1'') 1000 one_video scratch)) = [] \<and>
   bucket_of (handle Trim (failing_engine ''exit 1'') 1000 one_video scratch) = Map.empty \<and>
   uploads (trace_of (handle Trim (good_env (Some ''mp4-bytes'')) 1000 one_video scratch)) =
     [(''trimmed_1000.mp4'', ''mp4-bytes'')] \<and>
   bucket_of (handle Trim (good_env (Some ''mp4-bytes'')) 1000 one_video scratch) =
     [''trimmed_1000.mp4'' \<mapsto> ''mp4-bytes'']"
proof -
  have bad: "uploads (trace_of (handle Trim (failing_engine ''exit 1'') 1000 one_video scratch)) = [] \<and>
   bucket_of (handle Trim (failing_engine ''exit 1'') 1000 one_video scratch) = Map.empty"
  proof -
    from upload_only_after_end [OF one_video_valid, of "failing_engine ''exit 1''" 1000 scratch]
    obtain w' c evs where "handle Trim (failing_engine ''exit 1'') 1000 one_video scratch = Inr w'"
      and "trace w' = trace scratch @ Run (run_mode_of Trim) c (outputPath_of Trim 1000) # evs"
      and "uploads evs = [] \<and> bucket w' = bucket scratch"
      by (auto simp: failing_engine_def good_env_def)
    then show ?thesis by (simp add: trace_of_def bucket_of_def scratch_def)
  qed
  have good: "uploads (trace_of (handle Trim (good_env (Some ''mp4-bytes'')) 1000 one_video scratch)) =
     [(''trimmed_1000.mp4'', ''mp4-bytes'')] \<and>
   bucket_of (handle Trim (good_env (Some ''mp4-bytes'')) 1000 one_video scratch) =
     [''trimmed_1000.mp4'' \<mapsto> ''mp4-bytes'']"
  proof -
    from upload_only_after_end [OF one_video_valid, of "good_env (Some ''mp4-bytes'')" 1000 scratch]
    obtain w' c evs where "handle Trim (good_env (Some ''mp4-bytes'')) 1000 one_video scratch = Inr w'"
      and "trace w' = trace scratch @ Run (run_mode_of Trim) c (outputPath_of Trim 1000) # evs"
      and "uploads evs = [(''trimmed_1000.mp4'', ''mp4-bytes'')] \<and>
           bucket w' = (bucket scratch)(''trimmed_1000.mp4'' \<mapsto> ''mp4-bytes'')"
      by (auto simp: good_env_def readFileSync_scratch engine_files_def)
    then show ?thesis by (simp add: trace_of_def bucket_of_def scratch_def)
  qed
  from bad good show ?thesis by simp
qed

text \<open>
  Claim C2 as stated requires a non-empty output file. When the engine signals the end
  and leaves an empty file at the output path, the empty buffer is uploaded, stored
  under the artifact name, and the caller is told of a success.
\<close>

theorem empty_output_uploaded_counterexample:
  "ffmpeg_signal (good_env (Some [])) = End \<and>
   uploads (trace_of (handle Trim (good_env (Some [])) 1000 one_video scratch)) =
     [(''trimmed_1000.mp4'', [])] \<and>
   bucket_of (handle Trim (good_env (Some [])) 1000 one_video scratch) ''trimmed_1000.mp4'' =
     Some [] \<and>
   responses (trace_of (handle Trim (good_env (Some [])) 1000 one_video scratch)) =
     [(200, Success ''https://store.example/videos/trimmed_1000.mp4'')]"
  using concrete_success [of "good_env (Some [])" "[]"]
  by (auto simp: trace_of_def bucket_of_def good_env_def)

subsection \<open>Defaults of the trim and crop parameters\<close>

text \<open>
  Claim C5. For a request with a video file, the trim handler starts exactly one
  command, whose start time and duration are the body's \<^verbatim>\<open>startTime\<close> and
  \<^verbatim>\<open>duration\<close> fields as they came, and the numbers 0 and 5 only where the field is
  absent; the crop handler starts exactly one command, whose filter is
  \<^verbatim>\<open>crop=w:h:x:y\<close> built from the body's fields as they came, with 1080, 1920, 0 and 0
  only where the field is absent. A field that is present and empty stays empty, and no
  value is checked against any range.
\<close>

theorem trim_crop_parameters:
  assumes "req_file req = Some p"
  shows "(\<exists>w'. trim e now req w = Inr w' \<and>
            launched (trace w') = launched (trace w) @
              [(Save,
                \<lparr>cmd_inputs = [p],
                 cmd_startTime =
                   Some (case req_body req ''startTime'' of None \<Rightarrow> JNum 0 | Some s \<Rightarrow> JStr s),
                 cmd_duration =
                   Some (case req_body req ''duration'' of None \<Rightarrow> JNum 5 | Some s \<Rightarrow> JStr s),
                 cmd_videoFilters = [],
                 cmd_outputOptions = [''-c copy'', ''-threads 1'', ''-preset ultrafast'']\<rparr>,
                outputPath_of Trim now)]) \<and>
         (\<exists>w'. crop e now req w = Inr w' \<and>
            launched (trace w') = launched (trace w) @
              [(Save,
                \<lparr>cmd_inputs = [p], cmd_startTime = None, cmd_duration = None,
                 cmd_videoFilters =
                   [''crop='' @ (case req_body req ''w'' of None \<Rightarrow> ''1080'' | Some s \<Rightarrow> s)
                      @ '':'' @ (case req_body req ''h'' of None \<Rightarrow> ''1920'' | Some s \<Rightarrow> s)
                      @ '':'' @ (case req_body req ''x'' of None \<Rightarrow> ''0'' | Some s \<Rightarrow> s)
                      @ '':'' @ (case req_body req ''y'' of None \<Rightarrow> ''0'' | Some s \<Rightarrow> s)],
                 cmd_outputOptions = [''-threads 1'', ''-preset ultrafast'']\<rparr>,
                outputPath_of Crop now)])"
proof -
  have t: "\<exists>w'. trim e now req w = Inr w' \<and>
            launched (trace w') = launched (trace w) @
              [(Save,
                \<lparr>cmd_inputs = [p],
                 cmd_startTime =
                   Some (case req_body req ''startTime'' of None \<Rightarrow> JNum 0 | Some s \<Rightarrow> JStr s),
                 cmd_duration =
                   Some (case req_body req ''duration'' of None \<Rightarrow> JNum 5 | Some s \<Rightarrow> JStr s),
                 cmd_videoFilters = [],
                 cmd_outputOptions = [''-c copy'', ''-threads 1'', ''-preset ultrafast'']\<rparr>,
                outputPath_of Trim now)]"
  proof -
    note v = trim_valid [OF assms, of e now w]
    from job_tail_returns obtain w' where w': "trim e now req w = Inr w'"
      unfolding v by blast
    from launched_after_run [OF w' [unfolded v]] w' show ?thesis
      by (simp add: outputOptions_def setDuration_def setStartTime_def ffmpeg_def addInput_def
            ffmpeg_empty_def field_or_def)
  qed
  have c: "\<exists>w'. crop e now req w = Inr w' \<and>
            launched (trace w') = launched (trace w) @
              [(Save,
                \<lparr>cmd_inputs = [p], cmd_startTime = None, cmd_duration = None,
                 cmd_videoFilters =
                   [''crop='' @ (case req_body req ''w'' of None \<Rightarrow> ''1080'' | Some s \<Rightarrow> s)
                      @ '':'' @ (case req_body req ''h'' of None \<Rightarrow> ''1920'' | Some s \<Rightarrow> s)
                      @ '':'' @ (case req_body req ''x'' of None \<Rightarrow> ''0'' | Some s \<Rightarrow> s)
                      @ '':'' @ (case req_body req ''y'' of None \<Rightarrow> ''0'' | Some s \<Rightarrow> s)],
                 cmd_outputOptions = [''-threads 1'', ''-preset ultrafast'']\<rparr>,
                outputPath_of Crop now)]"
  proof -
    note v = crop_valid [OF assms, of e now w]
    from job_tail_returns obtain w' where w': "crop e now req w = Inr w'"
      unfolding v by blast
    have str:
      "to_str (field_or body name 1080) = (case body name of None \<Rightarrow> ''1080'' | Some s \<Rightarrow> s)"
      "to_str (field_or body name 1920) = (case body name of None \<Rightarrow> ''1920'' | Some s \<Rightarrow> s)"
      "to_str (field_or body name 0) = (case body name of None \<Rightarrow> ''0'' | Some s \<Rightarrow> s)"
      for body name
      by (simp_all add: field_or_def string_of_nat_defaults split: option.splits)
    from launched_after_run [OF w' [unfolded v]] w' show ?thesis
      by (simp add: outputOptions_def videoFilters_def ffmpeg_def addInput_def
            ffmpeg_empty_def str)
  qed
  from t c show ?thesis by simp
qed

theorem trim_crop_parameters_witness:
  "map (\<lambda>(m, c, p). (cmd_startTime c, cmd_duration c))
       (launched (trace_of (trim (good_env (Some ''mp4-bytes'')) 1000 odd_body scratch))) =
     [(Some (JStr []), Some (JNum 5))] \<and>
   map (\<lambda>(m, c, p). cmd_videoFilters c)
       (launched (trace_of (crop (good_env (Some ''mp4-bytes'')) 1000 odd_body scratch))) =
     [[''crop=-40:1920::0'']]"
proof -
  have f: "req_file odd_body = Some ''/tmp/up1''" by (simp add: odd_body_def)
  from trim_crop_parameters [OF f, of "good_env (Some ''mp4-bytes'')" 1000 scratch]
  show ?thesis
    by (auto simp: trace_of_def scratch_def odd_body_def)
qed

subsection \<open>The two resource options\<close>

text \<open>
  Claim C6. For each of the five routes, a request that passes the route's validation
  starts the engine exactly once, and the command started carries both
  \<^verbatim>\<open>-threads 1\<close> and \<^verbatim>\<open>-preset ultrafast\<close> among its output options; a request that
  does not pass starts nothing.
\<close>

theorem every_invocation_resource_limited:
  "(\<forall>ins. input_paths r e req = Some ins \<longrightarrow>
      (\<exists>w' c. handle r e now req w = Inr w' \<and>
         launched (trace w') = launched (trace w) @ [(run_mode_of r, c, outputPath_of r now)] \<and>
         ''-threads 1'' \<in> set (cmd_outputOptions c) \<and>
         ''-preset ultrafast'' \<in> set (cmd_outputOptions c))) \<and>
   (input_paths r e req = None \<longrightarrow>
      (\<forall>w'. handle r e now req w = Inr w' \<longrightarrow> launched (trace w') = launched (trace w)))"
proof (intro conjI allI impI)
  fix ins
  assume v: "input_paths r e req = Some ins"
  let ?out = "outputPath_of r now"
  from handle_valid [OF v, of now w] obtain c where c: "resource_limited c"
    and h: "handle r e now req w = job_tail r e ?out ins (run_ffmpeg e (run_mode_of r) c ?out w)"
    by blast
  from job_tail_returns obtain w' where w': "handle r e now req w = Inr w'"
    unfolding h by blast
  from launched_after_run [OF w' [unfolded h]] w' c
  show "\<exists>w' c. handle r e now req w = Inr w' \<and>
         launched (trace w') = launched (trace w) @ [(run_mode_of r, c, ?out)] \<and>
         ''-threads 1'' \<in> set (cmd_outputOptions c) \<and>
         ''-preset ultrafast'' \<in> set (cmd_outputOptions c)"
    by (auto simp: resource_limited_def)
next
  fix w'
  assume "input_paths r e req = None" and "handle r e now req w = Inr w'"
  with handle_invalid [of r e req now w]
  show "launched (trace w') = launched (trace w)"
    by (auto simp: respond_def)
qed

theorem every_invocation_resource_limited_witness:
  "map (\<lambda>(m, c, p). (m, cmd_inputs c, cmd_outputOptions c, p))
       (launched (trace_of (handle Merge (good_env (Some ''mp4-bytes'')) 1000 two_videos scratch))) =
     [(MergeToFile ''/tmp/'', [''/tmp/up1'', ''/tmp/up2''],
       [''-threads 1'', ''-preset ultrafast''], ''/tmp/merged_1000.mp4'')] \<and>
   launched (trace_of (handle Merge (good_env (Some ''mp4-bytes'')) 1000 one_video scratch)) = []"
proof -
  have v: "input_paths Merge (good_env (Some ''mp4-bytes'')) two_videos = Some [''/tmp/up1'', ''/tmp/up2'']"
    by (simp add: two_videos_def)
  have n: "input_paths Merge (good_env (Some ''mp4-bytes'')) one_video = None"
    by (simp add: one_video_def)
  have m: "handle Merge (good_env (Some ''mp4-bytes'')) 1000 two_videos scratch =
      job_tail Merge (good_env (Some ''mp4-bytes'')) (outputPath_of Merge 1000) [''/tmp/up1'', ''/tmp/up2'']
       (run_ffmpeg (good_env (Some ''mp4-bytes'')) (MergeToFile ''/tmp/'')
          (outputOptions [''-threads 1'', ''-preset ultrafast'']
             (fold addInput [''/tmp/up1'', ''/tmp/up2''] ffmpeg_empty))
          (outputPath_of Merge 1000) scratch)"
    by (simp add: merge_valid two_videos_def)
  from every_invocation_resource_limited
         [of Merge "good_env (Some ''mp4-bytes'')" two_videos 1000 scratch] v
  obtain w' c where w': "handle Merge (good_env (Some ''mp4-bytes'')) 1000 two_videos scratch = Inr w'"
    and "launched (trace w') = launched (trace scratch) @ [(run_mode_of Merge, c, outputPath_of Merge 1000)]"
    by blast
  from launched_after_run [OF w' [unfolded m]] w'
  have first: "map (\<lambda>(m, c, p). (m, cmd_inputs c, cmd_outputOptions c, p))
       (launched (trace_of (handle Merge (good_env (Some ''mp4-bytes'')) 1000 two_videos scratch))) =
     [(MergeToFile ''/tmp/'', [''/tmp/up1'', ''/tmp/up2''],
       [''-threads 1'', ''-preset ultrafast''], ''/tmp/merged_1000.mp4'')]"
    by (simp add: trace_of_def scratch_def outputOptions_def addInput_def ffmpeg_empty_def
          outputPath_of_def artifact_name_def string_of_nat_1000)
  from every_invocation_resource_limited
         [of Merge "good_env (Some ''mp4-bytes'')" one_video 1000 scratch] n
  have "\<forall>w'. handle Merge (good_env (Some ''mp4-bytes'')) 1000 one_video scratch = Inr w' \<longrightarrow>
          launched (trace w') = launched (trace scratch)"
    by blast
  then have second: "launched (trace_of (handle Merge (good_env (Some ''mp4-bytes'')) 1000 one_video scratch)) = []"
    by (cases "handle Merge (good_env (Some ''mp4-bytes'')) 1000 one_video scratch")
       (simp_all add: trace_of_def scratch_def)
  from first second show ?thesis by simp
qed

subsection \<open>The two failure payloads\<close>

text \<open>
  Claim C7. For every route and every request that passes the route's validation, the
  handler returns and sends one response. After an engine error it is status 500 with
  the route's processing-failure message and the engine's error message as details.
  After the end signal, when the upload fails (the service's error, or the output file
  cannot be read), it is status 500 with the route's upload-failure message and the
  underlying error message as details. The two payloads differ whatever the details
  are, since the two messages of a route differ.
\<close>

theorem failure_payloads_distinct:
  assumes "input_paths r e req = Some ins"
  shows "\<exists>w'. handle r e now req w = Inr w' \<and>
           (\<forall>m m'. Failure (processing_failed r) m \<noteq> Failure (upload_failed r) m') \<and>
           (\<forall>m. ffmpeg_signal e = Error m \<longrightarrow>
              responses (trace w') =
                responses (trace w) @ [(500, Failure (processing_failed r) m)]) \<and>
           (\<forall>m buf. ffmpeg_signal e = End \<and> upload_error e = Some m \<and>
              readFileSync (scratch_fs (engine_files e (outputPath_of r now) (files w)))
                (outputPath_of r now) = Inr buf \<longrightarrow>
              responses (trace w') =
                responses (trace w) @ [(500, Failure (upload_failed r) m)]) \<and>
           (\<forall>err. ffmpeg_signal e = End \<and>
              readFileSync (scratch_fs (engine_files e (outputPath_of r now) (files w)))
                (outputPath_of r now) = Inl err \<longrightarrow>
              responses (trace w') =
                responses (trace w) @ [(500, Failure (upload_failed r) (message err))])"
proof -
  let ?out = "outputPath_of r now"
  from handle_valid [OF assms, of now w] obtain c where
    h: "handle r e now req w = job_tail r e ?out ins (run_ffmpeg e (run_mode_of r) c ?out w)"
    by blast
  let ?w1 = "run_ffmpeg e (run_mode_of r) c ?out w"
  from job_tail_returns [of r e ?out ins ?w1] obtain w' where
    w': "job_tail r e ?out ins ?w1 = Inr w'" by blast
  have a: "\<forall>m. ffmpeg_signal e = Error m \<longrightarrow>
              responses (trace w') = responses (trace w) @ [(500, Failure (processing_failed r) m)]"
    using job_tail_error(3) [OF w'] by simp
  have b: "\<forall>m buf. ffmpeg_signal e = End \<and> upload_error e = Some m \<and>
              readFileSync (scratch_fs (engine_files e ?out (files w))) ?out = Inr buf \<longrightarrow>
              responses (trace w') = responses (trace w) @ [(500, Failure (upload_failed r) m)]"
    using job_tail_upload_error(3) [OF w'] by simp
  have c: "\<forall>err. ffmpeg_signal e = End \<and>
              readFileSync (scratch_fs (engine_files e ?out (files w))) ?out = Inl err \<longrightarrow>
              responses (trace w') =
                responses (trace w) @ [(500, Failure (upload_failed r) (message err))]"
    using job_tail_read_error(3) [OF w'] by simp
  from h w' a b c failure_messages_differ [of r] show ?thesis by simp
qed

theorem failure_payloads_distinct_witness:
  "responses (trace_of (handle Trim (failing_engine ''exit 1'') 1000 one_video scratch)) =
     [(500, Failure ''Video processing failed.'' ''exit 1'')] \<and>
   responses (trace_of (handle Trim (failing_storage ''quota'') 1000 one_video scratch)) =
     [(500, Failure ''Processing succeeded, but cloud upload failed.'' ''quota'')] \<and>
   responses (trace_of (handle Trim (good_env None) 1000 one_video scratch)) =
     [(500, Failure ''Processing succeeded, but cloud upload failed.''
              (''ENOENT: no such file or directory, open '' @ quoted ''/tmp/trimmed_1000.mp4''))]"
proof -
  have one: "responses (trace_of (handle Trim (failing_engine ''exit 1'') 1000 one_video scratch)) =
     [(500, Failure ''Video processing failed.'' ''exit 1'')]"
  proof -
    from failure_payloads_distinct [OF one_video_valid, of "failing_engine ''exit 1''" 1000 scratch]
    obtain w' where "handle Trim (failing_engine ''exit 1'') 1000 one_video scratch = Inr w'"
      and "\<forall>m. ffmpeg_signal (failing_engine ''exit 1'') = Error m \<longrightarrow>
              responses (trace w') =
                responses (trace scratch) @ [(500, Failure (processing_failed Trim) m)]"
      by blast
    then show ?thesis
      by (simp add: trace_of_def scratch_def failing_engine_def)
  qed
  have two: "responses (trace_of (handle Trim (failing_storage ''quota'') 1000 one_video scratch)) =
     [(500, Failure ''Processing succeeded, but cloud upload failed.'' ''quota'')]"
  proof -
    from failure_payloads_distinct [OF one_video_valid, of "failing_storage ''quota''" 1000 scratch]
    obtain w' where "handle Trim (failing_storage ''quota'') 1000 one_video scratch = Inr w'"
      and "\<forall>m buf. ffmpeg_signal (failing_storage ''quota'') = End \<and>
              upload_error (failing_storage ''quota'') = Some m \<and>
              readFileSync (scratch_fs (engine_files (failing_storage ''quota'') (outputPath_of Trim 1000)
                 (files scratch))) (outputPath_of Trim 1000) = Inr buf \<longrightarrow>
              responses (trace w') =
                responses (trace scratch) @ [(500, Failure (upload_failed Trim) m)]"
      by blast
    then show ?thesis
      by (simp add: trace_of_def scratch_def failing_storage_def good_env_def readFileSync_scratch
            engine_files_def)
  qed
  have three: "responses (trace_of (handle Trim (good_env None) 1000 one_video scratch)) =
     [(500, Failure ''Processing succeeded, but cloud upload failed.''
              (''ENOENT: no such file or directory, open '' @ quoted ''/tmp/trimmed_1000.mp4''))]"
  proof -
    from failure_payloads_distinct [OF one_video_valid, of "good_env None" 1000 scratch]
    obtain w' where "handle Trim (good_env None) 1000 one_video scratch = Inr w'"
      and "\<forall>err. ffmpeg_signal (good_env None) = End \<and>
              readFileSync (scratch_fs (engine_files (good_env None) (outputPath_of Trim 1000)
                 (files scratch))) (outputPath_of Trim 1000) = Inl err \<longrightarrow>
              responses (trace w') =
                responses (trace scratch) @ [(500, Failure (upload_failed Trim) (message err))]"
      by blast
    then show ?thesis
      by (simp add: trace_of_def scratch_def good_env_def readFileSync_scratch engine_files_def)
  qed
  from one two three show ?thesis by simp
qed

subsection \<open>The URL of a successful upload\<close>

text \<open>
  Claim C8, as the code has it. When the file can be read and the storage service
  accepts the upload, \<open>uploadToSupabase\<close> returns the URL the service resolves for the
  given name. For every route, a validated request whose engine ends well and whose
  upload is accepted stores the object under the artifact name and is answered with
  status 200 and that URL as \<^verbatim>\<open>downloadUrl\<close>, whatever the URL is: it is not inspected.
\<close>

theorem success_carries_resolved_url:
  assumes "input_paths r e req = Some ins"
    and "ffmpeg_signal e = End"
    and "upload_error e = None"
    and "readFileSync (scratch_fs (engine_files e (outputPath_of r now) (files w))) (outputPath_of r now) = Inr buf"
  shows "(\<forall>w0 p name. readFileSync (scratch_fs (files w0)) p = Inr buf \<longrightarrow>
            fst (uploadToSupabase e p name w0) = Inr (getPublicUrl e name)) \<and>
         (\<exists>w'. handle r e now req w = Inr w' \<and>
            uploads (trace w') = uploads (trace w) @ [(artifact_name r now, buf)] \<and>
            bucket w' = (bucket w)(artifact_name r now \<mapsto> buf) \<and>
            responses (trace w') =
              responses (trace w) @ [(200, Success (getPublicUrl e (artifact_name r now)))])"
proof -
  let ?out = "outputPath_of r now"
  from handle_valid [OF assms(1), of now w] obtain c where
    h: "handle r e now req w = job_tail r e ?out ins (run_ffmpeg e (run_mode_of r) c ?out w)"
    by blast
  let ?w1 = "run_ffmpeg e (run_mode_of r) c ?out w"
  from job_tail_returns [of r e ?out ins ?w1] obtain w' where
    w': "job_tail r e ?out ins ?w1 = Inr w'" by blast
  have rd: "readFileSync (scratch_fs (files ?w1)) ?out = Inr buf"
    using assms(4) by simp
  have up: "\<forall>w0 p name. readFileSync (scratch_fs (files w0)) p = Inr buf \<longrightarrow>
            fst (uploadToSupabase e p name w0) = Inr (getPublicUrl e name)"
    by (simp add: uploadToSupabase_def assms(3) Let_def)
  from job_tail_success [OF w' assms(2) rd assms(3)] h w'
  have "\<exists>w'. handle r e now req w = Inr w' \<and>
            uploads (trace w') = uploads (trace w) @ [(artifact_name r now, buf)] \<and>
            bucket w' = (bucket w)(artifact_name r now \<mapsto> buf) \<and>
            responses (trace w') =
              responses (trace w) @ [(200, Success (getPublicUrl e (artifact_name r now)))]"
    by (simp add: basename_outputPath)
  with up show ?thesis by blast
qed

theorem success_carries_resolved_url_witness:
  "responses (trace_of (handle Trim (good_env (Some ''mp4-bytes'')) 1000 one_video scratch)) =
     [(200, Success ''https://store.example/videos/trimmed_1000.mp4'')]"
proof -
  have rd: "readFileSync (scratch_fs (engine_files (good_env (Some ''mp4-bytes'')) (outputPath_of Trim 1000)
              (files scratch))) (outputPath_of Trim 1000) = Inr ''mp4-bytes''"
    by (simp add: readFileSync_scratch engine_files_def good_env_def)
  have s: "ffmpeg_signal (good_env (Some ''mp4-bytes'')) = End"
    and u: "upload_error (good_env (Some ''mp4-bytes'')) = None"
    by (simp_all add: good_env_def)
  from success_carries_resolved_url [OF one_video_valid s u rd]
  show ?thesis
    by (auto simp: trace_of_def scratch_def good_env_def)
qed

text \<open>
  Claim C8 as stated has the caller answer an empty locator with the upload-failure
  error. When the service resolves the empty string, the trim Job answers with status
  200 and an empty \<^verbatim>\<open>downloadUrl\<close>.
\<close>

theorem blank_url_reported_as_success_counterexample:
  "getPublicUrl blank_url ''trimmed_1000.mp4'' = [] \<and>
   responses (trace_of (handle Trim blank_url 1000 one_video scratch)) = [(200, Success [])]"
  using concrete_success [of blank_url "''mp4-bytes''"]
  by (auto simp: trace_of_def blank_url_def good_env_def)

subsection \<open>The artifact name\<close>

text \<open>
  Claim C10. Take two validated requests to the same route handled at the same
  millisecond \<open>now\<close>, in any two worlds and with any behaviour of the collaborators.
  Both handlers return; each starts the engine once, on the same output path
  \<^verbatim>\<open>/tmp/<prefix>_<now>.mp4\<close>. Each uploads exactly once, under the base name of that
  path and with the bytes of the output file, when the engine ends well and the file can
  be read, and does not upload otherwise. The base name is \<^verbatim>\<open><prefix>_<now>.mp4\<close>, so it
  ends in \<^verbatim>\<open>.mp4\<close>, and \<^verbatim>\<open><now>\<close> is the decimal numeral of the clock value: digits
  only, with no leading zero, and of that value.
\<close>

theorem artifact_name_of_job:
  assumes "input_paths r ea reqa = Some insa" and "input_paths r eb reqb = Some insb"
  shows "\<exists>wa' wb' ca cb.
           handle r ea now reqa wa = Inr wa' \<and> handle r eb now reqb wb = Inr wb' \<and>
           launched (trace wa') = launched (trace wa) @ [(run_mode_of r, ca, outputPath_of r now)] \<and>
           launched (trace wb') = launched (trace wb) @ [(run_mode_of r, cb, outputPath_of r now)] \<and>
           uploads (trace wa') = uploads (trace wa) @
             (case ffmpeg_signal ea of
                Error m \<Rightarrow> []
              | End \<Rightarrow>
                  (case readFileSync (scratch_fs (engine_files ea (outputPath_of r now) (files wa)))
                          (outputPath_of r now) of
                     Inl err \<Rightarrow> []
                   | Inr buf \<Rightarrow> [(basename (outputPath_of r now), buf)])) \<and>
           uploads (trace wb') = uploads (trace wb) @
             (case ffmpeg_signal eb of
                Error m \<Rightarrow> []
              | End \<Rightarrow>
                  (case readFileSync (scratch_fs (engine_files eb (outputPath_of r now) (files wb)))
                          (outputPath_of r now) of
                     Inl err \<Rightarrow> []
                   | Inr buf \<Rightarrow> [(basename (outputPath_of r now), buf)])) \<and>
           outputPath_of r now = ''/tmp/'' @ prefix_of r @ ''_'' @ string_of_nat now @ ''.mp4'' \<and>
           basename (outputPath_of r now) = prefix_of r @ ''_'' @ string_of_nat now @ ''.mp4'' \<and>
           decimal_value (string_of_nat now) = now \<and>
           set (string_of_nat now) \<subseteq> set ''0123456789'' \<and>
           string_of_nat now \<noteq> [] \<and>
           (now = 0 \<or> hd (string_of_nat now) \<noteq> CHR ''0'')"
proof -
  let ?out = "outputPath_of r now"
  have job: "\<exists>w' c. handle r e now req w = Inr w' \<and>
           launched (trace w') = launched (trace w) @ [(run_mode_of r, c, ?out)] \<and>
           uploads (trace w') = uploads (trace w) @
             (case ffmpeg_signal e of
                Error m \<Rightarrow> []
              | End \<Rightarrow>
                  (case readFileSync (scratch_fs (engine_files e ?out (files w))) ?out of
                     Inl err \<Rightarrow> []
                   | Inr buf \<Rightarrow> [(basename ?out, buf)]))"
    if v: "input_paths r e req = Some ins" for e req ins w
  proof -
    from handle_valid [OF v, of now w] obtain c where
      h: "handle r e now req w = job_tail r e ?out ins (run_ffmpeg e (run_mode_of r) c ?out w)"
      by blast
    let ?w1 = "run_ffmpeg e (run_mode_of r) c ?out w"
    from job_tail_returns [of r e ?out ins ?w1] obtain w' where
      w': "job_tail r e ?out ins ?w1 = Inr w'" by blast
    have l: "launched (trace w') = launched (trace w) @ [(run_mode_of r, c, ?out)]"
      using launched_after_run [OF w'] .
    have u: "uploads (trace w') = uploads (trace w) @
             (case ffmpeg_signal e of
                Error m \<Rightarrow> []
              | End \<Rightarrow>
                  (case readFileSync (scratch_fs (engine_files e ?out (files w))) ?out of
                     Inl err \<Rightarrow> []
                   | Inr buf \<Rightarrow> [(basename ?out, buf)]))"
    proof (cases "ffmpeg_signal e")
      case (Error m)
      from job_tail_error(1) [OF w' Error] Error show ?thesis by simp
    next
      case End
      show ?thesis
      proof (cases "readFileSync (scratch_fs (files ?w1)) ?out")
        case (Inl err)
        from job_tail_read_error(1) [OF w' End Inl] End Inl show ?thesis by simp
      next
        case (Inr buf)
        show ?thesis
        proof (cases "upload_error e")
          case None
          from job_tail_success(1) [OF w' End Inr None] End Inr show ?thesis by simp
        next
          case (Some m)
          from job_tail_upload_error(1) [OF w' End Inr Some] End Inr show ?thesis by simp
        qed
      qed
    qed
    from h w' l u show ?thesis
      by - (rule exI [where x = w'], rule exI [where x = c], simp)
  qed
  from job [OF assms(1), of wa] obtain wa' ca where
    ja: "handle r ea now reqa wa = Inr wa'"
      "launched (trace wa') = launched (trace wa) @ [(run_mode_of r, ca, ?out)]"
      "uploads (trace wa') = uploads (trace wa) @
             (case ffmpeg_signal ea of
                Error m \<Rightarrow> []
              | End \<Rightarrow>
                  (case readFileSync (scratch_fs (engine_files ea ?out (files wa))) ?out of
                     Inl err \<Rightarrow> []
                   | Inr buf \<Rightarrow> [(basename ?out, buf)]))"
    by blast
  from job [OF assms(2), of wb] obtain wb' cb where
    jb: "handle r eb now reqb wb = Inr wb'"
      "launched (trace wb') = launched (trace wb) @ [(run_mode_of r, cb, ?out)]"
      "uploads (trace wb') = uploads (trace wb) @
             (case ffmpeg_signal eb of
                Error m \<Rightarrow> []
              | End \<Rightarrow>
                  (case readFileSync (scratch_fs (engine_files eb ?out (files wb))) ?out of
                     Inl err \<Rightarrow> []
                   | Inr buf \<Rightarrow> [(basename ?out, buf)]))"
    by blast
  have p: "?out = ''/tmp/'' @ prefix_of r @ ''_'' @ string_of_nat now @ ''.mp4''"
    by (simp add: outputPath_of_def artifact_name_def)
  have b: "basename ?out = prefix_of r @ ''_'' @ string_of_nat now @ ''.mp4''"
    using basename_outputPath [of r now] by (simp add: artifact_name_def)
  note d = decimal_value_string_of_nat [of now] string_of_nat_digits [of now]
    string_of_nat_nonempty [of now] string_of_nat_no_leading_zero [of now]
  from ja jb p b d show ?thesis
    by - (rule exI [where x = wa'], rule exI [where x = wb'], rule exI [where x = ca],
          rule exI [where x = cb], intro conjI, assumption+)
qed

theorem artifact_name_of_job_witness:
  "uploads (trace_of (handle Merge (good_env (Some ''first'')) 1700000000000 two_videos scratch)) =
     [(''merged_1700000000000.mp4'', ''first'')] \<and>
   uploads (trace_of (handle Merge (good_env (Some ''second'')) 1700000000000 two_videos scratch)) =
     [(''merged_1700000000000.mp4'', ''second'')] \<and>
   map (\<lambda>(m, c, p). p)
     (launched (trace_of (handle Merge (good_env (Some ''first'')) 1700000000000 two_videos scratch))) =
     [''/tmp/merged_1700000000000.mp4''] \<and>
   map (\<lambda>(m, c, p). p)
     (launched (trace_of (handle Merge (good_env (Some ''second'')) 1700000000000 two_videos scratch))) =
     [''/tmp/merged_1700000000000.mp4''] \<and>
   uploads (trace_of (handle Trim (failing_storage ''quota'') 1000 one_video scratch)) =
     [(''trimmed_1000.mp4'', ''mp4-bytes'')] \<and>
   uploads (trace_of (handle Trim (failing_engine ''exit 1'') 1000 one_video scratch)) = []"
proof -
  have v: "input_paths Merge e two_videos = Some [''/tmp/up1'', ''/tmp/up2'']" for e
    by (simp add: two_videos_def)
  have o: "outputPath_of Merge 1700000000000 = ''/tmp/merged_1700000000000.mp4''"
    by (simp add: outputPath_of_def artifact_name_def string_of_nat_now)
  have bm: "basename ''/tmp/merged_1700000000000.mp4'' = ''merged_1700000000000.mp4''"
    by (simp add: basename_def)
  have bt: "basename ''/tmp/trimmed_1000.mp4'' = ''trimmed_1000.mp4''"
    by (simp add: basename_def)
  from artifact_name_of_job [OF v v, where ea = "good_env (Some ''first'')"
      and eb = "good_env (Some ''second'')" and now = 1700000000000 and wa = scratch and wb = scratch]
  have merge: "uploads (trace_of (handle Merge (good_env (Some ''first'')) 1700000000000 two_videos scratch)) =
     [(''merged_1700000000000.mp4'', ''first'')] \<and>
   uploads (trace_of (handle Merge (good_env (Some ''second'')) 1700000000000 two_videos scratch)) =
     [(''merged_1700000000000.mp4'', ''second'')] \<and>
   map (\<lambda>(m, c, p). p)
     (launched (trace_of (handle Merge (good_env (Some ''first'')) 1700000000000 two_videos scratch))) =
     [''/tmp/merged_1700000000000.mp4''] \<and>
   map (\<lambda>(m, c, p). p)
     (launched (trace_of (handle Merge (good_env (Some ''second'')) 1700000000000 two_videos scratch))) =
     [''/tmp/merged_1700000000000.mp4'']"
    by (auto simp: o bm trace_of_def scratch_def good_env_def readFileSync_scratch engine_files_def)
  from artifact_name_of_job [OF one_video_valid one_video_valid,
      where ea = "failing_storage ''quota''" and eb = "failing_engine ''exit 1''"
        and now = 1000 and wa = scratch and wb = scratch]
  have trim: "uploads (trace_of (handle Trim (failing_storage ''quota'') 1000 one_video scratch)) =
     [(''trimmed_1000.mp4'', ''mp4-bytes'')] \<and>
   uploads (trace_of (handle Trim (failing_engine ''exit 1'') 1000 one_video scratch)) = []"
    by (auto simp: bt trace_of_def scratch_def good_env_def failing_storage_def
          failing_engine_def readFileSync_scratch engine_files_def)
  from merge trim show ?thesis by simp
qed

subsection \<open>Requests without their files\<close>

text \<open>
  Claim C4 fails on two routes. A request that the upload middleware passed on
  untouched has no \<^verbatim>\<open>req.files\<close>. The merge handler tests for that and answers 400, and
  so does the trim handler for its missing \<^verbatim>\<open>req.file\<close>; the add-voice and add-caption
  handlers read \<^verbatim>\<open>req.files.video\<close> first and throw a TypeError, so they send no 400.
\<close>

theorem missing_files_type_error:
  "handle AddVoice e now bare_request w =
     Inl (TypeError (''Cannot read properties of undefined (reading '' @ quoted ''video'' @ '')'')) \<and>
   handle AddCaption e now bare_request w =
     Inl (TypeError (''Cannot read properties of undefined (reading '' @ quoted ''video'' @ '')'')) \<and>
   handle Merge e now bare_request w =
     Inr (respond 400 (Rejected ''Exactly 2 videos required.'') w) \<and>
   handle Trim e now bare_request w =
     Inr (respond 400 (Rejected ''Video file required.'') w)"
  by (simp add: addVoice_def addCaption_def merge_def trim_def bare_request_def files_field_def)

text \<open>
  Apart from that, a request that reaches a handler and does not pass its validation is
  answered with status 400 and the route's message, and nothing else happens: on the
  add-voice and add-caption routes this needs \<^verbatim>\<open>req.files\<close> to be an object none of
  whose fields is an empty array. A request that the upload middleware refuses by itself
  (a third file on the merge route, a file over the size limit) reaches no handler; what
  is answered then is not decided in \<^verbatim>\<open>src/server.js\<close>.
\<close>

lemma rejected_with_400:
  assumes "input_paths r e req = None"
    and "r = AddVoice \<or> r = AddCaption \<Longrightarrow>
           \<exists>m. req_files req = FilesObject m \<and> (\<forall>name. m name \<noteq> Some [])"
  shows "handle r e now req w = Inr (respond 400 (Rejected (rejection r)) w)"
proof (cases r)
  case Trim
  with assms(1) show ?thesis by (simp add: trim_def)
next
  case Crop
  with assms(1) show ?thesis by (simp add: crop_def)
next
  case Merge
  with assms(1) show ?thesis
    by (auto simp: merge_def split: req_files.splits if_splits)
next
  case AddVoice
  with assms(2) obtain m where m: "req_files req = FilesObject m" "\<forall>name. m name \<noteq> Some []"
    by blast
  with assms(1) AddVoice show ?thesis
    by (auto simp: addVoice_def field_path_def files_field_def first_path_def Let_def
          split: option.splits list.splits)
next
  case AddCaption
  with assms(2) obtain m where m: "req_files req = FilesObject m" "\<forall>name. m name \<noteq> Some []"
    by blast
  with assms(1) AddCaption show ?thesis
    by (auto simp: addCaption_def field_path_def files_field_def first_path_def Let_def
          split: option.splits list.splits)
qed

end
